theory Spec2Isabelle
  imports Main
begin

chapter \<open>The programs\<close>

section \<open>pipeline: the stage that injects JSON serialization test cases\<close>

subsection \<open>Identifiers, types and declarations (package astmodel)\<close>

text \<open>
  Modelled from the spec: \<^verbatim>\<open>astmodel.TypeName\<close>, the Identifier. Package astmodel is not
  among the sources; the spec gives an Identifier a namespace and a local name.
\<close>

datatype TypeName = MakeTypeName (PackageReference: string) (LocalName: string)

text \<open>
  Modelled from the spec: \<^verbatim>\<open>astmodel.Type\<close>, the closed set of type variants of the spec's
  data model, and the test case that \<^verbatim>\<open>testcases.NewJSONSerializationTestCase\<close> builds.
  An Object is its ordered list of named properties, a Resource is its spec and status
  types; both carry the test cases attached to them. A Map has a key kind and a value
  type, a Flagged type an inner type and a flag. The test case is kept as the three
  operands its constructor receives in \<^verbatim>\<open>injectTestCaseIntoResource\<close> and
  \<^verbatim>\<open>injectTestCaseIntoObject\<close>: the subject's name, the Resource or Object it was made
  for, and the identifier factory (of any type \<open>'idf\<close>).
\<close>

datatype 'idf Type =
    PrimitiveType string
  | ObjectType "(string \<times> 'idf Type) list" "'idf TestCase list"
  | ResourceType "'idf Type" "'idf Type" "'idf TestCase list"
  | EnumType string "string list"
  | MapType string "'idf Type"
  | ArrayType "'idf Type"
  | OptionalType "'idf Type"
  | FlaggedType "'idf Type" string
  | Reference TypeName
and 'idf TestCase =
    JSONSerializationTestCase TypeName "'idf Type" 'idf

text \<open>
  Modelled from the spec: \<^verbatim>\<open>astmodel.TypeDefinition\<close>, a Declaration: an Identifier paired
  with a Type. \<open>Name\<close> and \<open>Type\<close> are its two accessors.
\<close>

record 'idf TypeDefinition =
  Name :: TypeName
  Type :: "'idf Type"

text \<open>
  Modelled from the spec: \<^verbatim>\<open>astmodel.Types\<close>, the Type Graph, a Go map from Identifier to
  Declaration.
\<close>

type_synonym 'idf Types = "TypeName \<rightharpoonup> 'idf TypeDefinition"

text \<open>
  Errors. \<open>Errorf\<close> is an error made from a message; \<open>Aggregate\<close> is the error that
  \<^verbatim>\<open>kerrors.NewAggregate\<close> (k8s.io/apimachinery) returns, holding the list of errors it was
  given.
\<close>

datatype error =
    Errorf string
  | Aggregate "error list"

text \<open>
  \<^verbatim>\<open>kerrors.NewAggregate(errlist)\<close>: \<^verbatim>\<open>nil\<close> for an empty list, otherwise the aggregate of
  the list. (It also drops \<^verbatim>\<open>nil\<close> entries; an \<open>error list\<close> has none.)
\<close>

definition NewAggregate :: "error list \<Rightarrow> error option" where
  "NewAggregate errlist = (if length errlist = 0 then None else Some (Aggregate errlist))"

subsection \<open>The visitor (package astmodel)\<close>

text \<open>
  A handler of the visitor for one variant: it receives the context value and the node.
  The context is an \<^verbatim>\<open>interface{}\<close> in Go; both handlers of this stage assert it to be a
  \<^verbatim>\<open>TypeName\<close>, and \<^verbatim>\<open>AddTestTo\<close>, their only caller, passes one, so it is a \<open>TypeName\<close> here.
  The first parameter of a Go handler, the visitor itself, is dropped: both handlers of
  this stage ignore it.
\<close>

type_synonym 'idf handler = "TypeName \<Rightarrow> 'idf Type \<Rightarrow> error + 'idf Type"

text \<open>
  Modelled from the spec: \<^verbatim>\<open>astmodel.TypeVisitorBuilder\<close> and the \<^verbatim>\<open>TypeVisitor\<close> it builds,
  a record of optional handlers, one for each variant; a handler that is not supplied is
  \<open>None\<close>. Only the two handlers this stage supplies are fields; every other variant always
  has the default behaviour.
\<close>

record 'idf TypeVisitor =
  VisitResourceType :: "'idf handler option"
  VisitObjectType :: "'idf handler option"

text \<open>
  Modelled from the spec: \<^verbatim>\<open>TypeVisitor.Visit\<close>. A variant with a handler is given to the
  handler. The default for a variant without one rebuilds the same variant with each
  child visited (Array: the element; Map: the value; Optional and Flagged: the inner
  type; Object: the type of each property; Resource: spec and status); Primitive, Enum
  and Reference are returned unchanged. An error of a node propagates upwards and ends
  the traversal.
\<close>

fun Visit :: "'idf TypeVisitor \<Rightarrow> 'idf Type \<Rightarrow> TypeName \<Rightarrow> error + 'idf Type"
and VisitProperties :: "'idf TypeVisitor \<Rightarrow> (string \<times> 'idf Type) list \<Rightarrow> TypeName
      \<Rightarrow> error + (string \<times> 'idf Type) list" where
  "Visit v (PrimitiveType k) ctx = Inr (PrimitiveType k)"
| "Visit v (EnumType b vs) ctx = Inr (EnumType b vs)"
| "Visit v (Reference n) ctx = Inr (Reference n)"
| "Visit v (ArrayType e) ctx =
     (case Visit v e ctx of Inl err \<Rightarrow> Inl err | Inr e' \<Rightarrow> Inr (ArrayType e'))"
| "Visit v (MapType k e) ctx =
     (case Visit v e ctx of Inl err \<Rightarrow> Inl err | Inr e' \<Rightarrow> Inr (MapType k e'))"
| "Visit v (OptionalType e) ctx =
     (case Visit v e ctx of Inl err \<Rightarrow> Inl err | Inr e' \<Rightarrow> Inr (OptionalType e'))"
| "Visit v (FlaggedType e f) ctx =
     (case Visit v e ctx of Inl err \<Rightarrow> Inl err | Inr e' \<Rightarrow> Inr (FlaggedType e' f))"
| "Visit v (ObjectType ps tcs) ctx =
     (case VisitObjectType v of
        Some h \<Rightarrow> h ctx (ObjectType ps tcs)
      | None \<Rightarrow>
          (case VisitProperties v ps ctx of
             Inl err \<Rightarrow> Inl err
           | Inr ps' \<Rightarrow> Inr (ObjectType ps' tcs)))"
| "Visit v (ResourceType sp st tcs) ctx =
     (case VisitResourceType v of
        Some h \<Rightarrow> h ctx (ResourceType sp st tcs)
      | None \<Rightarrow>
          (case Visit v sp ctx of
             Inl err \<Rightarrow> Inl err
           | Inr sp' \<Rightarrow>
               (case Visit v st ctx of
                  Inl err \<Rightarrow> Inl err
                | Inr st' \<Rightarrow> Inr (ResourceType sp' st' tcs))))"
| "VisitProperties v [] ctx = Inr []"
| "VisitProperties v ((n, t) # ps) ctx =
     (case Visit v t ctx of
        Inl err \<Rightarrow> Inl err
      | Inr t' \<Rightarrow>
          (case VisitProperties v ps ctx of
             Inl err \<Rightarrow> Inl err
           | Inr ps' \<Rightarrow> Inr ((n, t') # ps')))"

text \<open>
  Modelled from the spec: \<^verbatim>\<open>TypeVisitor.VisitDefinition\<close>. It visits the Type of the
  Declaration with the given context and returns a new Declaration of the same
  Identifier with the rewritten Type. An error of the traversal propagates: it is the
  result, as it is.
\<close>

definition VisitDefinition :: "'idf TypeVisitor \<Rightarrow> 'idf TypeDefinition \<Rightarrow> TypeName
    \<Rightarrow> error + 'idf TypeDefinition" where
  "VisitDefinition v def ctx =
     (case Visit v (Type def) ctx of
        Inl err \<Rightarrow> Inl err
      | Inr t \<Rightarrow> Inr (def\<lparr>Type := t\<rparr>))"

text \<open>
  Modelled from the spec: \<^verbatim>\<open>WithTestCase\<close> of \<^verbatim>\<open>ResourceType\<close> and \<^verbatim>\<open>ObjectType\<close>, a copy of
  the receiver with the test case attached and everything else as it was. (The Go methods
  exist for these two variants only.)
\<close>

fun WithTestCase :: "'idf Type \<Rightarrow> 'idf TestCase \<Rightarrow> 'idf Type" where
  "WithTestCase (ObjectType ps tcs) testcase = ObjectType ps (tcs @ [testcase])"
| "WithTestCase (ResourceType sp st tcs) testcase = ResourceType sp st (tcs @ [testcase])"
| "WithTestCase t testcase = t"

text \<open>
  Modelled from the spec: \<^verbatim>\<open>testcases.NewJSONSerializationTestCase(name, container,
  idFactory)\<close>, the description of a serialization round-trip test, determined by its three
  operands.
\<close>

definition NewJSONSerializationTestCase :: "TypeName \<Rightarrow> 'idf Type \<Rightarrow> 'idf \<Rightarrow> 'idf TestCase" where
  "NewJSONSerializationTestCase name container idf =
     JSONSerializationTestCase name container idf"

subsection \<open>The factory and the stage (package pipeline)\<close>

record 'idf objectSerializationTestCaseFactory =
  visitor :: "'idf TypeVisitor"
  idFactory :: 'idf

text \<open>
  The two handlers are methods of the factory that read its \<^verbatim>\<open>idFactory\<close> only, which is
  their first parameter here.
\<close>

definition injectTestCaseIntoResource :: "'idf \<Rightarrow> 'idf handler" where
  "injectTestCaseIntoResource s_idFactory ctx resource =
     (let name = ctx;
          testcase = NewJSONSerializationTestCase name resource s_idFactory;
          result = WithTestCase resource testcase
      in Inr result)"

definition injectTestCaseIntoObject :: "'idf \<Rightarrow> 'idf handler" where
  "injectTestCaseIntoObject s_idFactory ctx objectType =
     (let name = ctx;
          testcase = NewJSONSerializationTestCase name objectType s_idFactory;
          result = WithTestCase objectType testcase
      in Inr result)"

definition makeObjectSerializationTestCaseFactory :: "'idf \<Rightarrow> 'idf objectSerializationTestCaseFactory" where
  "makeObjectSerializationTestCaseFactory idf =
     \<lparr>visitor = \<lparr>VisitResourceType = Some (injectTestCaseIntoResource idf),
                 VisitObjectType = Some (injectTestCaseIntoObject idf)\<rparr>,
      idFactory = idf\<rparr>"

definition AddTestTo :: "'idf objectSerializationTestCaseFactory \<Rightarrow> 'idf TypeDefinition
    \<Rightarrow> error + 'idf TypeDefinition" where
  "AddTestTo s def = VisitDefinition (visitor s) def (Name def)"

text \<open>
  \<^verbatim>\<open>context.Context\<close>, as far as a stage can observe it: cancelled or not.
\<close>

datatype Context = Background | Canceled

text \<open>
  The loop \<^verbatim>\<open>for _, d := range types\<close> of the stage. Go visits every key of the map once,
  in an order it does not specify; the order of one run is the list \<open>order\<close> of the keys.
  The state of the loop is the map \<^verbatim>\<open>result\<close> and the slice \<^verbatim>\<open>errs\<close>.
\<close>

fun range_types :: "'idf objectSerializationTestCaseFactory \<Rightarrow> 'idf Types \<Rightarrow> TypeName list
    \<Rightarrow> 'idf Types \<times> error list \<Rightarrow> 'idf Types \<times> error list" where
  "range_types factory types [] (result, errs) = (result, errs)"
| "range_types factory types (k # order) (result, errs) =
     (case types k of
        None \<Rightarrow> range_types factory types order (result, errs)
      | Some d \<Rightarrow>
          (case AddTestTo factory d of
             Inl err \<Rightarrow> range_types factory types order (result, errs @ [err])
           | Inr updated \<Rightarrow>
               range_types factory types order (result(Name updated \<mapsto> updated), errs)))"

text \<open>
  The function the stage is made of, from the loop to its two \<^verbatim>\<open>return\<close>s, for a given
  factory. It returns the Go pair \<^verbatim>\<open>(astmodel.Types, error)\<close>, each component \<open>None\<close> for
  \<^verbatim>\<open>nil\<close>. The context is a parameter and is not used, as in the source.
\<close>

definition addTestsToAll :: "'idf objectSerializationTestCaseFactory \<Rightarrow> Context \<Rightarrow> 'idf Types
    \<Rightarrow> TypeName list \<Rightarrow> 'idf Types option \<times> error option" where
  "addTestsToAll factory ctx types order =
     (case range_types factory types order (Map.empty, []) of
        (result, errs) \<Rightarrow>
          if length errs > 0 then (None, NewAggregate errs)
          else (Some result, None))"

text \<open>The function given to \<^verbatim>\<open>MakeLegacyStage\<close>: it makes the factory and runs the loop.\<close>

definition jsonTestCases :: "'idf \<Rightarrow> Context \<Rightarrow> 'idf Types \<Rightarrow> TypeName list
    \<Rightarrow> 'idf Types option \<times> error option" where
  "jsonTestCases idf ctx types order =
     (let factory = makeObjectSerializationTestCaseFactory idf
      in addTestsToAll factory ctx types order)"

text \<open>
  Modelled from the spec: \<^verbatim>\<open>Stage\<close> and \<^verbatim>\<open>MakeLegacyStage\<close> (their declarations are not among
  the sources): a stage has a name, a description and one operation from a context and
  a Type Graph to a new Type Graph or an error.
\<close>

record 'idf Stage =
  stage_id :: string
  stage_description :: string
  stage_action :: "Context \<Rightarrow> 'idf Types \<Rightarrow> TypeName list \<Rightarrow> 'idf Types option \<times> error option"

definition MakeLegacyStage :: "string \<Rightarrow> string
    \<Rightarrow> (Context \<Rightarrow> 'idf Types \<Rightarrow> TypeName list \<Rightarrow> 'idf Types option \<times> error option)
    \<Rightarrow> 'idf Stage" where
  "MakeLegacyStage ident description action =
     \<lparr>stage_id = ident, stage_description = description, stage_action = action\<rparr>"

definition InjectJsonSerializationTests :: "'idf \<Rightarrow> 'idf Stage" where
  "InjectJsonSerializationTests idf =
     MakeLegacyStage ''jsonTestCases'' ''Add test cases to verify JSON serialization''
       (jsonTestCases idf)"

subsection \<open>What a run of the loop may assume\<close>

text \<open>
  \<open>order\<close> is an order in which \<^verbatim>\<open>range\<close> may visit \<open>types\<close>: every key once.
\<close>

definition range_order :: "'idf Types \<Rightarrow> TypeName list \<Rightarrow> bool" where
  "range_order types order = (distinct order \<and> set order = dom types)"

text \<open>
  Every Declaration of a Type Graph is stored under its own Identifier, as
  \<^verbatim>\<open>Types.Add\<close> stores it.
\<close>

definition keyed_by_name :: "'idf Types \<Rightarrow> bool" where
  "keyed_by_name types = (\<forall>k d. types k = Some d \<longrightarrow> Name d = k)"

text \<open>The errors of the Declarations that fail, in the order of the run.\<close>

definition failures :: "'idf objectSerializationTestCaseFactory \<Rightarrow> 'idf Types \<Rightarrow> TypeName list
    \<Rightarrow> error list" where
  "failures factory types order =
     concat (map (\<lambda>k. case types k of
                         None \<Rightarrow> []
                       | Some d \<Rightarrow> (case AddTestTo factory d of Inl err \<Rightarrow> [err] | Inr _ \<Rightarrow> []))
                 order)"

text \<open>The Identifiers of the Declarations that fail.\<close>

definition failing :: "'idf objectSerializationTestCaseFactory \<Rightarrow> 'idf Types \<Rightarrow> TypeName set" where
  "failing factory types = {k. \<exists>d err. types k = Some d \<and> AddTestTo factory d = Inl err}"

text \<open>The graph of the Declarations that succeed, each rewritten by \<^verbatim>\<open>AddTestTo\<close>.\<close>

definition updated_of :: "'idf objectSerializationTestCaseFactory \<Rightarrow> 'idf Types \<Rightarrow> 'idf Types" where
  "updated_of factory types k = (case types k of None \<Rightarrow> None | Some d \<Rightarrow> (case AddTestTo factory d of Inl err \<Rightarrow> None | Inr u \<Rightarrow> Some u))"

text \<open>
  The same loop with a log of the calls of \<^verbatim>\<open>AddTestTo\<close>: the Declaration of each call is
  appended to \<open>calls\<close>. The log is not a variable of the source.
\<close>

fun range_types_traced :: "'idf objectSerializationTestCaseFactory \<Rightarrow> 'idf Types \<Rightarrow> TypeName list
    \<Rightarrow> ('idf Types \<times> error list) \<times> 'idf TypeDefinition list
    \<Rightarrow> ('idf Types \<times> error list) \<times> 'idf TypeDefinition list" where
  "range_types_traced factory types [] ((result, errs), calls) = ((result, errs), calls)"
| "range_types_traced factory types (k # order) ((result, errs), calls) =
     (case types k of
        None \<Rightarrow> range_types_traced factory types order ((result, errs), calls)
      | Some d \<Rightarrow>
          (case AddTestTo factory d of
             Inl err \<Rightarrow> range_types_traced factory types order ((result, errs @ [err]), calls @ [d])
           | Inr updated \<Rightarrow>
               range_types_traced factory types order
                 ((result(Name updated \<mapsto> updated), errs), calls @ [d])))"

text \<open>
  What the stage does to a type, written without the visitor, to compare the visitor
  with: every Object and Resource that stands at the top or under Array, Map, Optional
  and Flagged wrappers receives the test case of the enclosing Identifier; nothing inside
  an Object or a Resource is touched.
\<close>

fun withTestCases :: "'idf \<Rightarrow> TypeName \<Rightarrow> 'idf Type \<Rightarrow> 'idf Type" where
  "withTestCases idf n (ObjectType ps tcs) =
     ObjectType ps (tcs @ [JSONSerializationTestCase n (ObjectType ps tcs) idf])"
| "withTestCases idf n (ResourceType sp st tcs) =
     ResourceType sp st (tcs @ [JSONSerializationTestCase n (ResourceType sp st tcs) idf])"
| "withTestCases idf n (ArrayType e) = ArrayType (withTestCases idf n e)"
| "withTestCases idf n (MapType k e) = MapType k (withTestCases idf n e)"
| "withTestCases idf n (OptionalType e) = OptionalType (withTestCases idf n e)"
| "withTestCases idf n (FlaggedType e f) = FlaggedType (withTestCases idf n e) f"
| "withTestCases idf n (PrimitiveType k) = PrimitiveType k"
| "withTestCases idf n (EnumType b vs) = EnumType b vs"
| "withTestCases idf n (Reference r) = Reference r"

text \<open>The type is an Object or a Resource.\<close>

definition is_container :: "'idf Type \<Rightarrow> bool" where
  "is_container t = (case t of ObjectType ps tcs \<Rightarrow> True | ResourceType sp st tcs \<Rightarrow> True | _ \<Rightarrow> False)"

text \<open>
  An Object or a Resource stands in the type at a place the default traversal reaches:
  at the top, or under Array, Map, Optional and Flagged wrappers.
\<close>

fun reaches_container :: "'idf Type \<Rightarrow> bool" where
  "reaches_container (ObjectType ps tcs) = True"
| "reaches_container (ResourceType sp st tcs) = True"
| "reaches_container (ArrayType e) = reaches_container e"
| "reaches_container (MapType k e) = reaches_container e"
| "reaches_container (OptionalType e) = reaches_container e"
| "reaches_container (FlaggedType e f) = reaches_container e"
| "reaches_container (PrimitiveType k) = False"
| "reaches_container (EnumType b vs) = False"
| "reaches_container (Reference r) = False"

subsection \<open>The stage over a store of maps\<close>

text \<open>
  A Go map is a reference: the stage receives a reference to the caller's map and makes
  a new map for its result. The store is the list of all maps, a reference is an index
  into it, and \<^verbatim>\<open>make\<close> appends an empty map. The loop reads the map at \<open>types\<close> and writes
  \<^verbatim>\<open>result[updated.Name()] = updated\<close> into the map at \<open>result\<close>.
\<close>

type_synonym 'idf store = "'idf Types list"

fun range_types_store :: "'idf objectSerializationTestCaseFactory \<Rightarrow> nat \<Rightarrow> nat \<Rightarrow> TypeName list
    \<Rightarrow> 'idf store \<times> error list \<Rightarrow> 'idf store \<times> error list" where
  "range_types_store factory types result [] (h, errs) = (h, errs)"
| "range_types_store factory types result (k # order) (h, errs) =
     (case (h ! types) k of
        None \<Rightarrow> range_types_store factory types result order (h, errs)
      | Some d \<Rightarrow>
          (case AddTestTo factory d of
             Inl err \<Rightarrow> range_types_store factory types result order (h, errs @ [err])
           | Inr updated \<Rightarrow>
               range_types_store factory types result order
                 (h[result := (h ! result)(Name updated \<mapsto> updated)], errs)))"

definition addTestsToAll_store :: "'idf objectSerializationTestCaseFactory \<Rightarrow> Context \<Rightarrow> nat
    \<Rightarrow> TypeName list \<Rightarrow> 'idf store \<Rightarrow> (nat option \<times> error option) \<times> 'idf store" where
  "addTestsToAll_store factory ctx types order h =
     (let result = length h;
          h = h @ [Map.empty]
      in case range_types_store factory types result order (h, []) of
           (h, errs) \<Rightarrow>
             if length errs > 0 then ((None, NewAggregate errs), h)
             else ((Some result, None), h))"

subsection \<open>A small Type Graph and a visitor whose handlers fail\<close>

definition example_Account :: TypeName where
  "example_Account = MakeTypeName ''storage'' ''Account''"

definition example_Blob :: TypeName where
  "example_Blob = MakeTypeName ''storage'' ''Blob''"

definition example_Kind :: TypeName where
  "example_Kind = MakeTypeName ''storage'' ''Kind''"

definition example_types :: "unit Types" where
  "example_types =
     [example_Account \<mapsto> \<lparr>Name = example_Account,
                           Type = ObjectType [(''kind'', Reference example_Kind)] []\<rparr>,
      example_Blob \<mapsto> \<lparr>Name = example_Blob,
                        Type = ResourceType (ObjectType [] []) (PrimitiveType ''string'') []\<rparr>,
      example_Kind \<mapsto> \<lparr>Name = example_Kind, Type = EnumType ''string'' [''Hot'', ''Cool'']\<rparr>]"

definition example_failing_factory :: "unit objectSerializationTestCaseFactory" where
  "example_failing_factory =
     \<lparr>visitor = \<lparr>VisitResourceType = Some (\<lambda>ctx t. Inl (Errorf (''no legal test name for '' @ LocalName ctx))),
                 VisitObjectType = Some (\<lambda>ctx t. Inl (Errorf (''no legal test name for '' @ LocalName ctx)))\<rparr>,
      idFactory = ()\<rparr>"

definition example_wrapped :: "unit Types" where
  "example_wrapped =
     [example_Account \<mapsto> \<lparr>Name = example_Account, Type = OptionalType (ObjectType [] [])\<rparr>]"

section \<open>testcommon: what is hidden in a recording (test\_context.go)\<close>

subsection \<open>Regular expressions of Go, as far as the two patterns need them\<close>

text \<open>
  The classes of single characters: a literal, \<^verbatim>\<open>\d\<close>, \<^verbatim>\<open>.\<close> (any character but a line
  feed) and a bracket expression given by its members. A string is its list of
  characters, each standing for one rune; for ASCII text these are its bytes.
\<close>

datatype charclass = Lit char | Digit | Dot | Bracket "char list"

fun accepts :: "charclass \<Rightarrow> char \<Rightarrow> bool" where
  "accepts (Lit a) c = (c = a)"
| "accepts Digit c = (c \<in> set ''0123456789'')"
| "accepts Dot c = (c \<noteq> CHR 0x0A)"
| "accepts (Bracket cs) c = (c \<in> set cs)"

text \<open>
  \<open>Eps\<close> matches the empty string, \<open>Cat\<close> is concatenation, \<open>Opt\<close> is the greedy \<^verbatim>\<open>x?\<close> and
  \<open>Plus\<close> the greedy \<^verbatim>\<open>c+\<close> of a single-character class.
\<close>

datatype regex = Eps | One charclass | Cat regex regex | Opt regex | Plus charclass

text \<open>
  Go's regexp package returns the match a backtracking search finds first. \<open>matches r s\<close>
  lists what is left of \<open>s\<close> after each way of matching \<open>r\<close> at its start, in the order a
  backtracking search tries them: a greedy operator tries the longer match first.
\<close>

fun star_rests :: "charclass \<Rightarrow> string \<Rightarrow> string list" where
  "star_rests c [] = [] # []"
| "star_rests c (x # xs) = (if accepts c x then star_rests c xs @ [x # xs] else [x # xs])"

fun matches :: "regex \<Rightarrow> string \<Rightarrow> string list" where
  "matches Eps s = [s]"
| "matches (One c) s = (case s of [] \<Rightarrow> [] | x # xs \<Rightarrow> if accepts c x then [xs] else [])"
| "matches (Cat a b) s = concat (map (matches b) (matches a s))"
| "matches (Opt a) s = matches a s @ [s]"
| "matches (Plus c) s = (case s of [] \<Rightarrow> [] | x # xs \<Rightarrow> if accepts c x then star_rests c xs else [])"

definition firstMatch :: "regex \<Rightarrow> string \<Rightarrow> string option" where
  "firstMatch r s = (case matches r s of [] \<Rightarrow> None | rest # _ \<Rightarrow> Some rest)"

fun seq :: "regex list \<Rightarrow> regex" where
  "seq [] = Eps"
| "seq (r # rs) = Cat r (seq rs)"

text \<open>\<^verbatim>\<open>x{n}\<close> is \<open>n\<close> copies of \<^verbatim>\<open>x\<close>.\<close>

fun times :: "nat \<Rightarrow> regex \<Rightarrow> regex" where
  "times 0 r = Eps"
| "times (Suc n) r = Cat r (times n r)"

text \<open>
  \<^verbatim>\<open>Regexp.ReplaceAllLiteralString(src, repl)\<close>: the matches are looked for from left to
  right; the text before a match is copied, the match is replaced by \<open>repl\<close>, and the
  search goes on after the match. Neither pattern of this file matches the empty string,
  so Go's rules for empty matches are left out: a match that consumes nothing counts as
  no match at that position.
\<close>

function ReplaceAllLiteralString :: "regex \<Rightarrow> string \<Rightarrow> string \<Rightarrow> string" where
  "ReplaceAllLiteralString re [] repl = []"
| "ReplaceAllLiteralString re (x # xs) repl =
     (case firstMatch re (x # xs) of
        None \<Rightarrow> x # ReplaceAllLiteralString re xs repl
      | Some rest \<Rightarrow>
          if length rest < length (x # xs)
          then repl @ ReplaceAllLiteralString re rest repl
          else x # ReplaceAllLiteralString re xs repl)"
  by pat_completeness auto
termination
  by (relation "measure (\<lambda>(re, s, repl). length s)") auto

text \<open>The pattern \<^verbatim>\<open>\d{4}-\d{2}-\d{2}T\d{2}:\d{2}:\d{2}(.\d+)?Z\<close>.\<close>

definition dateMatcher :: regex where
  "dateMatcher =
     seq [times 4 (One Digit), One (Lit CHR ''-''), times 2 (One Digit), One (Lit CHR ''-''),
          times 2 (One Digit), One (Lit CHR ''T''), times 2 (One Digit), One (Lit CHR '':''),
          times 2 (One Digit), One (Lit CHR '':''), times 2 (One Digit),
          Opt (Cat (One Dot) (Plus Digit)), One (Lit CHR ''Z'')]"

text \<open>The pattern \<^verbatim>\<open>ssh-rsa [0-9a-zA-Z+/=]+\<close>.\<close>

definition keyChars :: charclass where
  "keyChars = Bracket ''0123456789abcdefghijklmnopqrstuvwxyzABCDEFGHIJKLMNOPQRSTUVWXYZ+/=''"

definition sshKeyMatcher :: regex where
  "sshKeyMatcher = seq (map (\<lambda>c. One (Lit c)) ''ssh-rsa '' @ [Plus keyChars])"

text \<open>The pattern for SSH keys matches at the start of \<open>s\<close>.\<close>

definition sshKeyAt :: "string \<Rightarrow> bool" where
  "sshKeyAt s = (\<exists>k r. s = ''ssh-rsa '' @ k # r \<and> accepts keyChars k)"

definition hideDates :: "string \<Rightarrow> string" where
  "hideDates s = ReplaceAllLiteralString dateMatcher s ''2001-02-03T04:05:06Z''"

definition hideSSHKeys :: "string \<Rightarrow> string" where
  "hideSSHKeys s = ReplaceAllLiteralString sshKeyMatcher s ''ssh-rsa {KEY}''"

definition hideRecordingData :: "string \<Rightarrow> string" where
  "hideRecordingData s =
     (let result = hideDates s;
          result = hideSSHKeys result
      in result)"

subsection \<open>The save filter of createRecorder\<close>

text \<open>
  \<^verbatim>\<open>strings.ReplaceAll(s, old, new)\<close> of the Go standard library: the occurrences of \<open>old\<close>
  are looked for from left to right and do not overlap. An empty \<open>old\<close> matches before
  every character and at the end.
\<close>

function ReplaceAll :: "string \<Rightarrow> string \<Rightarrow> string \<Rightarrow> string" where
  "ReplaceAll [] old new = (if old = [] then new else [])"
| "ReplaceAll (x # xs) old new =
     (if old = [] then new @ x # ReplaceAll xs old new
      else if take (length old) (x # xs) = old
      then new @ ReplaceAll (drop (length old) (x # xs)) old new
      else x # ReplaceAll xs old new)"
  by pat_completeness auto
termination
  by (relation "measure (\<lambda>(s, old, new). length s)") auto

text \<open>\<^verbatim>\<open>uuid.Nil.String()\<close>.\<close>

definition uuid_Nil_String :: string where
  "uuid_Nil_String = ''00000000-0000-0000-0000-000000000000''"

text \<open>
  \<^verbatim>\<open>cassette.Interaction\<close> (github.com/dnaeon/go-vcr) with the fields of its request and
  response that hold text; \<^verbatim>\<open>http.Header\<close> is a map from a header's name to its values.
\<close>

record Request =
  Request_Body :: string
  Request_Headers :: "string \<rightharpoonup> string list"
  Request_URL :: string
  Request_Method :: string

record Response =
  Response_Body :: string
  Response_Headers :: "string \<rightharpoonup> string list"
  Response_Status :: string

record Interaction =
  Request :: Request
  Response :: Response

text \<open>The closure \<^verbatim>\<open>hideSubID\<close> of the save filter, with the variable it captures.\<close>

definition hideSubID :: "string \<Rightarrow> string \<Rightarrow> string" where
  "hideSubID subscriptionID s = ReplaceAll s subscriptionID uuid_Nil_String"

text \<open>
  The two loops over the headers assign \<^verbatim>\<open>hideSubID(values[i])\<close> to every element of every
  value slice, in place.
\<close>

definition hideSubID_in_headers :: "string \<Rightarrow> (string \<rightharpoonup> string list) \<Rightarrow> (string \<rightharpoonup> string list)" where
  "hideSubID_in_headers subscriptionID headers =
     (\<lambda>k. case headers k of None \<Rightarrow> None | Some values \<Rightarrow> Some (map (hideSubID subscriptionID) values))"

text \<open>\<^verbatim>\<open>delete(m, key)\<close> for each key of a list, in order.\<close>

fun delete_keys :: "string list \<Rightarrow> (string \<rightharpoonup> string list) \<Rightarrow> (string \<rightharpoonup> string list)" where
  "delete_keys [] m = m"
| "delete_keys (k # ks) m = delete_keys ks (m(k := None))"

text \<open>
  The function given to \<^verbatim>\<open>r.AddSaveFilter\<close> in \<^verbatim>\<open>createRecorder\<close>: it rewrites the interaction
  and returns the error \<^verbatim>\<open>nil\<close>.
\<close>

definition saveFilter :: "string \<Rightarrow> Interaction \<Rightarrow> Interaction \<times> error option" where
  "saveFilter subscriptionID i =
     (let req = Request i;
          resp = Response i;
          req = req\<lparr>Request_Body := hideRecordingData (hideSubID subscriptionID (Request_Body req))\<rparr>;
          resp = resp\<lparr>Response_Body := hideRecordingData (hideSubID subscriptionID (Response_Body resp))\<rparr>;
          req = req\<lparr>Request_URL := hideSubID subscriptionID (Request_URL req)\<rparr>;
          req = req\<lparr>Request_Headers := hideSubID_in_headers subscriptionID (Request_Headers req)\<rparr>;
          resp = resp\<lparr>Response_Headers := hideSubID_in_headers subscriptionID (Response_Headers resp)\<rparr>;
          req = req\<lparr>Request_Headers := delete_keys [''Authorization''] (Request_Headers req)\<rparr>;
          resp = resp\<lparr>Response_Headers :=
                   delete_keys [''X-Ms-Correlation-Request-Id'',
                                ''X-Ms-Ratelimit-Remaining-Subscription-Reads'',
                                ''X-Ms-Ratelimit-Remaining-Subscription-Writes'',
                                ''X-Ms-Request-Id'',
                                ''X-Ms-Routing-Request-Id'']
                     (Response_Headers resp)\<rparr>;
          req = req\<lparr>Request_Headers := delete_keys [''User-Agent''] (Request_Headers req)\<rparr>;
          resp = resp\<lparr>Response_Headers := delete_keys [''Date''] (Response_Headers resp)\<rparr>
      in (\<lparr>Request = req, Response = resp\<rparr>, None))"

text \<open>\<open>contains s sub\<close>: \<^verbatim>\<open>strings.Contains(s, sub)\<close>, \<open>sub\<close> occurs in \<open>s\<close>.\<close>

fun contains :: "string \<Rightarrow> string \<Rightarrow> bool" where
  "contains [] sub = (sub = [])"
| "contains (x # xs) sub = (take (length sub) (x # xs) = sub \<or> contains xs sub)"

text \<open>
  Three interactions: one whose URL has the subscription ID followed by text that, after
  the replacement, spells the ID again; one whose body spells the ID only once its date
  is hidden; and one of the usual kind.
\<close>

definition example_interaction :: Interaction where
  "example_interaction =
     \<lparr>Request = \<lparr>Request_Body = [],
                  Request_Headers = [''Authorization'' \<mapsto> [''Bearer abc'']],
                  Request_URL = ''/subscriptions/00000000-1111-2222-3333-444444444444-1111-2222-3333-444444444444'',
                  Request_Method = ''GET''\<rparr>,
      Response = \<lparr>Response_Body = [], Response_Headers = Map.empty,
                   Response_Status = ''200 OK''\<rparr>\<rparr>"

definition example_interaction_body :: Interaction where
  "example_interaction_body =
     \<lparr>Request = \<lparr>Request_Body = ''a2b4c6d8-1111-2222-3333-444444441999-12-31T23:59:59Z'',
                  Request_Headers = Map.empty,
                  Request_URL = ''/subscriptions/a2b4c6d8-1111-2222-3333-444444442001'',
                  Request_Method = ''PUT''\<rparr>,
      Response = \<lparr>Response_Body = [], Response_Headers = Map.empty,
                   Response_Status = ''200 OK''\<rparr>\<rparr>"

definition example_interaction_usual :: Interaction where
  "example_interaction_usual =
     \<lparr>Request = \<lparr>Request_Body = ''id: /subscriptions/a2b4c6d8-1111-2222-3333-44444444444f'',
                  Request_Headers = [''Authorization'' \<mapsto> [''Bearer abc''],
                                     ''X-Sub'' \<mapsto> [''a2b4c6d8-1111-2222-3333-44444444444f'']],
                  Request_URL = ''/subscriptions/a2b4c6d8-1111-2222-3333-44444444444f/resourceGroups/rg'',
                  Request_Method = ''PUT''\<rparr>,
      Response = \<lparr>Response_Body = ''createdAt: 2021-07-09T11:12:13.456Z'',
                   Response_Headers = [''Date'' \<mapsto> [''Fri, 09 Jul 2021 11:12:13 GMT'']],
                   Response_Status = ''200 OK''\<rparr>\<rparr>"

section \<open>testcommon: ARM identifiers (test\_context.go)\<close>

text \<open>
  The fields of \<^verbatim>\<open>PerTestContext\<close> that hold plain data. \<^verbatim>\<open>MakeARMId\<close> reads
  \<^verbatim>\<open>AzureSubscription\<close> only.
\<close>

record PerTestContext =
  AzureRegion :: string
  RecordReplay :: bool
  AzureSubscription :: string
  TestName :: string

text \<open>
  \<^verbatim>\<open>strings.Join(elems, sep)\<close> of the Go standard library: the elements in order,
  \<^verbatim>\<open>sep\<close> between each two neighbours.
\<close>

fun Join :: "string list \<Rightarrow> string \<Rightarrow> string" where
  "Join [] sep = []"
| "Join [x] sep = x"
| "Join (x # y # ys) sep = x @ sep @ Join (y # ys) sep"

text \<open>
  \<^verbatim>\<open>fmt.Sprintf\<close> restricted to the verb \<^verbatim>\<open>%s\<close> applied to string operands, which
  is all that \<^verbatim>\<open>MakeARMId\<close> uses: the format is copied, each \<^verbatim>\<open>%s\<close> is replaced by
  the next operand (operands are not scanned again), and a \<^verbatim>\<open>%s\<close> without an operand
  prints \<^verbatim>\<open>%!s(MISSING)\<close>.
\<close>

fun Sprintf :: "string \<Rightarrow> string list \<Rightarrow> string" where
  "Sprintf [] args = []"
| "Sprintf [c] args = [c]"
| "Sprintf (c # d # fs) args =
     (if c = CHR ''%'' \<and> d = CHR ''s''
      then (case args of
              [] \<Rightarrow> ''%!s(MISSING)'' @ Sprintf fs []
            | a # as \<Rightarrow> a @ Sprintf fs as)
      else c # Sprintf (d # fs) args)"

text \<open>
  \<^verbatim>\<open>MakeARMId\<close>: a panic is the value \<open>Inl\<close> with the panic's message, a normal return
  is \<open>Inr\<close>. The variadic \<^verbatim>\<open>params\<close> is a list.
\<close>

definition MakeARMId :: "PerTestContext \<Rightarrow> string \<Rightarrow> string \<Rightarrow> string list \<Rightarrow> string + string" where
  "MakeARMId tc resourceGroup provider params =
     (if length params = 0 then Inl ''At least 2 params must be specified''
      else if length params mod 2 \<noteq> 0 then Inl ''ARM Id params must come in resourceKind/name pairs''
      else (let suffix = Join params ''/''
            in Inr (Sprintf ''/subscriptions/%s/resourceGroups/%s/providers/%s/%s''
                      [AzureSubscription tc, resourceGroup, provider, suffix])))"

chapter \<open>The properties\<close>

section \<open>MakeARMId\<close>

lemma Sprintf_arm_format:
  "Sprintf ''/subscriptions/%s/resourceGroups/%s/providers/%s/%s'' [a, b, c, d] =
     ''/subscriptions/'' @ a @ ''/resourceGroups/'' @ b @ ''/providers/'' @ c @ ''/'' @ d"
  by simp

text \<open>
  Claim C9. \<^verbatim>\<open>MakeARMId\<close> panics exactly when \<^verbatim>\<open>params\<close> is empty or of odd length;
  for every non-empty list of even length it returns
  \<^verbatim>\<open>/subscriptions/<AzureSubscription>/resourceGroups/<resourceGroup>/providers/<provider>/\<close>
  followed by the parameters joined by \<^verbatim>\<open>/\<close>.
\<close>

theorem MakeARMId_panics_iff_and_value:
  "((\<exists>msg. MakeARMId tc resourceGroup provider params = Inl msg)
      \<longleftrightarrow> (params = [] \<or> odd (length params)))
   \<and> (params \<noteq> [] \<and> even (length params) \<longrightarrow>
        MakeARMId tc resourceGroup provider params =
          Inr (''/subscriptions/'' @ AzureSubscription tc @ ''/resourceGroups/'' @ resourceGroup
               @ ''/providers/'' @ provider @ ''/'' @ Join params ''/''))"
  unfolding MakeARMId_def Let_def Sprintf_arm_format
  by (auto simp: odd_iff_mod_2_eq_one)

theorem MakeARMId_witness:
  "((\<exists>msg. MakeARMId \<lparr>AzureRegion = ''westus2'', RecordReplay = True,
                       AzureSubscription = ''sub'', TestName = ''t''\<rparr>
              ''rg'' ''Microsoft.Storage'' [''storageAccounts'', ''acct''] = Inl msg)
      \<longleftrightarrow> False)
   \<and> MakeARMId \<lparr>AzureRegion = ''westus2'', RecordReplay = True,
                 AzureSubscription = ''sub'', TestName = ''t''\<rparr>
        ''rg'' ''Microsoft.Storage'' [''storageAccounts'', ''acct'']
      = Inr ''/subscriptions/sub/resourceGroups/rg/providers/Microsoft.Storage/storageAccounts/acct''"
  using MakeARMId_panics_iff_and_value
    [of "\<lparr>AzureRegion = ''westus2'', RecordReplay = True,
          AzureSubscription = ''sub'', TestName = ''t''\<rparr>"
        "''rg''" "''Microsoft.Storage''" "[''storageAccounts'', ''acct'']"]
  by simp

section \<open>The stage that injects test cases\<close>

lemma AddTestTo_Inr_Name: "AddTestTo factory d = Inr u \<Longrightarrow> Name u = Name d"
  by (auto simp: AddTestTo_def VisitDefinition_def split: sum.splits)

lemma range_types_errs:
  "snd (range_types factory types order (result, errs)) = errs @ failures factory types order"
  by (induction order arbitrary: result errs) (auto simp: failures_def split: option.splits sum.splits)

lemma range_types_result:
  assumes "keyed_by_name types"
  shows "fst (range_types factory types order (result, errs)) =
     (\<lambda>k. if k \<in> set order then (case updated_of factory types k of Some u \<Rightarrow> Some u | None \<Rightarrow> result k) else result k)"
  using assms
proof (induction order arbitrary: result errs)
  case Nil
  then show ?case by simp
next
  case (Cons a order)
  show ?case
  proof (cases "types a")
    case None
    then show ?thesis using Cons by (auto simp: updated_of_def fun_eq_iff)
  next
    case (Some d)
    then have nd: "Name d = a" using Cons.prems by (simp add: keyed_by_name_def)
    show ?thesis
    proof (cases "AddTestTo factory d")
      case (Inl e)
      then show ?thesis using Some Cons by (auto simp: updated_of_def fun_eq_iff)
    next
      case (Inr u)
      then have "Name u = a" using nd AddTestTo_Inr_Name by metis
      then show ?thesis using Some Inr Cons by (auto simp: updated_of_def fun_eq_iff split: option.splits)
    qed
  qed
qed

lemma range_types_result_all:
  assumes "keyed_by_name types" "range_order types order"
  shows "fst (range_types factory types order (Map.empty, [])) = updated_of factory types"
  using assms(2) unfolding range_types_result[OF assms(1)]
  by (auto simp: fun_eq_iff range_order_def updated_of_def split: option.splits)

lemma length_failures:
  assumes "range_order types order"
  shows "length (failures factory types order) = card (failing factory types)"
proof -
  have "length (failures factory types ks) = length (filter (\<lambda>k. k \<in> failing factory types) ks)" for ks
    by (induction ks) (auto simp: failures_def failing_def split: option.splits sum.splits)
  moreover have "failing factory types \<subseteq> set order"
    using assms by (auto simp: failing_def range_order_def)
  ultimately show ?thesis
    using assms by (simp add: distinct_length_filter range_order_def Int_absorb2)
qed

lemma addTestsToAll_eq:
  assumes "keyed_by_name types" "range_order types order"
  shows "addTestsToAll factory ctx types order =
     (if failures factory types order = [] then (Some (updated_of factory types), None)
      else (None, Some (Aggregate (failures factory types order))))"
proof -
  obtain r e where re: "range_types factory types order (Map.empty, []) = (r, e)"
    by (cases "range_types factory types order (Map.empty, [])")
  have "e = failures factory types order"
    using range_types_errs[of factory types order Map.empty "[]"] re by simp
  moreover have "r = updated_of factory types"
    using range_types_result_all[OF assms, of factory] re by simp
  ultimately show ?thesis
    by (simp add: addTestsToAll_def re NewAggregate_def)
qed

lemma Visit_stage_visitor:
  "Visit (visitor (makeObjectSerializationTestCaseFactory idf)) t n = Inr (withTestCases idf n t)"
  by (induction idf n t rule: withTestCases.induct)
     (simp_all add: makeObjectSerializationTestCaseFactory_def injectTestCaseIntoResource_def
        injectTestCaseIntoObject_def NewJSONSerializationTestCase_def)

lemma AddTestTo_stage:
  "AddTestTo (makeObjectSerializationTestCaseFactory idf) d = Inr (d\<lparr>Type := withTestCases idf (Name d) (Type d)\<rparr>)"
  by (simp add: AddTestTo_def VisitDefinition_def Visit_stage_visitor)

lemma withTestCases_unchanged:
  "\<not> reaches_container t \<Longrightarrow> withTestCases idf n t = t"
  by (induction idf n t rule: withTestCases.induct) simp_all

lemma withTestCases_changed:
  "reaches_container t \<Longrightarrow> withTestCases idf n t \<noteq> t"
  by (induction idf n t rule: withTestCases.induct) simp_all


lemma range_types_traced_fst:
  "fst (range_types_traced factory types order ((result, errs), calls)) =
     range_types factory types order (result, errs)"
  by (induction order arbitrary: result errs calls) (auto split: option.splits sum.splits)

lemma range_types_traced_snd:
  "snd (range_types_traced factory types order ((result, errs), calls)) =
     calls @ List.map_filter types order"
  by (induction order arbitrary: result errs calls)
     (auto simp: List.map_filter_simps split: option.splits sum.splits)

lemma map_filter_range_order:
  assumes "range_order types order"
  shows "set (List.map_filter types order) = ran types"
    and "length (List.map_filter types order) = card (dom types)"
proof -
  show "set (List.map_filter types order) = ran types"
    using assms by (force simp: range_order_def List.map_filter_def ran_def dom_def image_iff)
  have "filter (\<lambda>k. types k \<noteq> None) order = order"
    using assms by (auto simp: range_order_def filter_id_conv)
  then have "length (List.map_filter types order) = length order"
    by (simp add: List.map_filter_def)
  then show "length (List.map_filter types order) = card (dom types)"
    using assms by (metis distinct_card range_order_def)
qed

lemma failures_mem:
  assumes "range_order types order" "types k = Some d" "AddTestTo factory d = Inl err"
  shows "err \<in> set (failures factory types order)"
proof -
  have "k \<in> set order" using assms by (auto simp: range_order_def)
  then show ?thesis using assms(2,3) by (force simp: failures_def)
qed

lemma collected_in_aggregate:
  assumes "range_order types order" "types k = Some d" "AddTestTo factory d = Inl err"
  shows "\<exists>errs. addTestsToAll factory ctx types order = (None, Some (Aggregate errs)) \<and> err \<in> set errs"
proof -
  obtain r e where re: "range_types factory types order (Map.empty, []) = (r, e)"
    by (cases "range_types factory types order (Map.empty, [])")
  have e: "e = failures factory types order"
    using range_types_errs[of factory types order Map.empty "[]"] re by simp
  have "err \<in> set e" using failures_mem[OF assms] e by simp
  then show ?thesis
    by (auto simp: addTestsToAll_def re NewAggregate_def)
qed

text \<open>
  Claim C3. Per-item errors never stop the run of the stage: for every Type Graph and every
  order of the iteration, \<^verbatim>\<open>AddTestTo\<close> is called on every Declaration, once, whatever failed
  before, and every error these calls return is among the errors of the aggregate the stage
  returns.
\<close>

theorem no_fail_fast:
  assumes "range_order types order"
  shows "set (snd (range_types_traced factory types order ((Map.empty, []), []))) = ran types
    \<and> length (snd (range_types_traced factory types order ((Map.empty, []), []))) = card (dom types)
    \<and> fst (range_types_traced factory types order ((Map.empty, []), [])) =
        range_types factory types order (Map.empty, [])
    \<and> (\<forall>k d err. types k = Some d \<and> AddTestTo factory d = Inl err \<longrightarrow>
          (\<exists>errs. addTestsToAll factory ctx types order = (None, Some (Aggregate errs))
                  \<and> err \<in> set errs))"
proof -
  have collected: "\<forall>k d err. types k = Some d \<and> AddTestTo factory d = Inl err \<longrightarrow>
          (\<exists>errs. addTestsToAll factory ctx types order = (None, Some (Aggregate errs))
                  \<and> err \<in> set errs)"
    using collected_in_aggregate[OF assms] by blast
  have calls: "snd (range_types_traced factory types order ((Map.empty, []), [])) =
      List.map_filter types order"
    by (simp add: range_types_traced_snd)
  show ?thesis
    unfolding calls range_types_traced_fst
    using map_filter_range_order[OF assms] collected by simp
qed

lemma failing_finite:
  assumes "range_order types order"
  shows "finite (failing factory types)"
proof -
  have "failing factory types \<subseteq> set order"
    using assms by (auto simp: failing_def range_order_def)
  then show ?thesis by (rule finite_subset) simp
qed

lemma no_failing_updated_of:
  assumes "failing factory types = {}" "types k = Some d"
  shows "\<exists>u. AddTestTo factory d = Inr u \<and> updated_of factory types k = Some u"
proof (cases "AddTestTo factory d")
  case (Inl e)
  then have "k \<in> failing factory types" using assms(2) by (auto simp: failing_def)
  then show ?thesis using assms(1) by simp
next
  case (Inr u)
  then show ?thesis using assms(2) by (simp add: updated_of_def)
qed

lemma dom_updated_of:
  assumes "failing factory types = {}"
  shows "dom (updated_of factory types) = dom types"
proof
  show "dom (updated_of factory types) \<subseteq> dom types"
    by (auto simp: updated_of_def split: option.splits)
  show "dom types \<subseteq> dom (updated_of factory types)"
    using no_failing_updated_of[OF assms] by fastforce
qed

lemma failing_stage: "failing (makeObjectSerializationTestCaseFactory idf) types = {}"
  by (simp add: failing_def AddTestTo_stage)

lemma updated_of_stage:
  "updated_of (makeObjectSerializationTestCaseFactory idf) types k =
     (case types k of None \<Rightarrow> None
      | Some d \<Rightarrow> Some (d\<lparr>Type := withTestCases idf (Name d) (Type d)\<rparr>))"
  by (simp add: updated_of_def AddTestTo_stage split: option.splits)

lemma stage_action_eq:
  "stage_action (InjectJsonSerializationTests idf) ctx types order =
     addTestsToAll (makeObjectSerializationTestCaseFactory idf) ctx types order"
  by (simp add: InjectJsonSerializationTests_def MakeLegacyStage_def jsonTestCases_def)

text \<open>
  Claim C1, as amended. For every Type Graph stored under its Identifiers and every order
  of the iteration: if exactly \<open>k \<ge> 1\<close> Declarations fail, the stage returns no graph and
  one aggregate error that holds exactly \<open>k\<close> per-item errors; if none fails, it returns
  a graph that holds, under every Identifier of the input, the Declaration that
  \<^verbatim>\<open>AddTestTo\<close> returned. With the visitor the stage builds, every Object and Resource
  Declaration carries its original content plus the test case, a Declaration in which no
  Object or Resource stands under Array, Map, Optional or Flagged wrappers is unchanged,
  and every other Declaration is the original with the test case attached to the Objects
  and Resources under its wrappers (\<open>withTestCases\<close>).
\<close>

theorem injection_fail_closed:
  assumes "keyed_by_name types" and "range_order types order"
  shows "(1 \<le> card (failing factory types) \<longrightarrow>
            (\<exists>errs. addTestsToAll factory ctx types order = (None, Some (Aggregate errs))
                    \<and> length errs = card (failing factory types)))
       \<and> (card (failing factory types) = 0 \<longrightarrow>
            (\<exists>g. addTestsToAll factory ctx types order = (Some g, None) \<and> dom g = dom types
                 \<and> (\<forall>k d. types k = Some d \<longrightarrow>
                       (\<exists>u. AddTestTo factory d = Inr u \<and> g k = Some u))))
       \<and> (\<exists>g. stage_action (InjectJsonSerializationTests idf) ctx types order = (Some g, None)
              \<and> dom g = dom types
              \<and> (\<forall>k d. types k = Some d \<longrightarrow>
                    g k = Some (d\<lparr>Type := withTestCases idf k (Type d)\<rparr>)
                    \<and> (\<forall>ps tcs. Type d = ObjectType ps tcs \<longrightarrow>
                          g k = Some (d\<lparr>Type := ObjectType ps
                                  (tcs @ [NewJSONSerializationTestCase k (Type d) idf])\<rparr>))
                    \<and> (\<forall>sp st tcs. Type d = ResourceType sp st tcs \<longrightarrow>
                          g k = Some (d\<lparr>Type := ResourceType sp st
                                  (tcs @ [NewJSONSerializationTestCase k (Type d) idf])\<rparr>))
                    \<and> (\<not> reaches_container (Type d) \<longrightarrow> g k = Some d)
                    \<and> (reaches_container (Type d) \<longrightarrow> g k \<noteq> Some d)))"
proof (intro conjI impI)
  assume k: "1 \<le> card (failing factory types)"
  then have "failures factory types order \<noteq> []"
    using length_failures[OF assms(2), of factory] by auto
  then show "\<exists>errs. addTestsToAll factory ctx types order = (None, Some (Aggregate errs))
                    \<and> length errs = card (failing factory types)"
    using addTestsToAll_eq[OF assms] length_failures[OF assms(2)] by auto
next
  assume "card (failing factory types) = 0"
  then have none: "failing factory types = {}"
    using failing_finite[OF assms(2)] by simp
  then have "failures factory types order = []"
    using length_failures[OF assms(2), of factory] by simp
  then have "addTestsToAll factory ctx types order = (Some (updated_of factory types), None)"
    using addTestsToAll_eq[OF assms] by simp
  then show "\<exists>g. addTestsToAll factory ctx types order = (Some g, None) \<and> dom g = dom types
                 \<and> (\<forall>k d. types k = Some d \<longrightarrow>
                       (\<exists>u. AddTestTo factory d = Inr u \<and> g k = Some u))"
    using dom_updated_of[OF none] no_failing_updated_of[OF none] by blast
next
  let ?f = "makeObjectSerializationTestCaseFactory idf"
  let ?g = "updated_of ?f types"
  have "failures ?f types order = []"
    using length_failures[OF assms(2), of ?f] by (simp add: failing_stage)
  then have run: "stage_action (InjectJsonSerializationTests idf) ctx types order = (Some ?g, None)"
    using addTestsToAll_eq[OF assms] by (simp add: stage_action_eq)
  have dom: "dom ?g = dom types"
    by (rule dom_updated_of) (rule failing_stage)
  have each: "?g k = Some (d\<lparr>Type := withTestCases idf k (Type d)\<rparr>)" if "types k = Some d" for k d
    using that assms(1) by (simp add: updated_of_stage keyed_by_name_def)
  have "\<forall>k d. types k = Some d \<longrightarrow>
           ?g k = Some (d\<lparr>Type := withTestCases idf k (Type d)\<rparr>)
           \<and> (\<forall>ps tcs. Type d = ObjectType ps tcs \<longrightarrow>
                 ?g k = Some (d\<lparr>Type := ObjectType ps
                         (tcs @ [NewJSONSerializationTestCase k (Type d) idf])\<rparr>))
           \<and> (\<forall>sp st tcs. Type d = ResourceType sp st tcs \<longrightarrow>
                 ?g k = Some (d\<lparr>Type := ResourceType sp st
                         (tcs @ [NewJSONSerializationTestCase k (Type d) idf])\<rparr>))
           \<and> (\<not> reaches_container (Type d) \<longrightarrow> ?g k = Some d)
           \<and> (reaches_container (Type d) \<longrightarrow> ?g k \<noteq> Some d)"
  proof (intro allI impI)
    fix k d
    assume kd: "types k = Some d"
    have "d\<lparr>Type := withTestCases idf k (Type d)\<rparr> \<noteq> d" if "reaches_container (Type d)"
    proof
      assume "d\<lparr>Type := withTestCases idf k (Type d)\<rparr> = d"
      then have "Type (d\<lparr>Type := withTestCases idf k (Type d)\<rparr>) = Type d" by simp
      then show False using withTestCases_changed[OF that] by simp
    qed
    then show "?g k = Some (d\<lparr>Type := withTestCases idf k (Type d)\<rparr>)
           \<and> (\<forall>ps tcs. Type d = ObjectType ps tcs \<longrightarrow>
                 ?g k = Some (d\<lparr>Type := ObjectType ps
                         (tcs @ [NewJSONSerializationTestCase k (Type d) idf])\<rparr>))
           \<and> (\<forall>sp st tcs. Type d = ResourceType sp st tcs \<longrightarrow>
                 ?g k = Some (d\<lparr>Type := ResourceType sp st
                         (tcs @ [NewJSONSerializationTestCase k (Type d) idf])\<rparr>))
           \<and> (\<not> reaches_container (Type d) \<longrightarrow> ?g k = Some d)
           \<and> (reaches_container (Type d) \<longrightarrow> ?g k \<noteq> Some d)"
      using each[OF kd] by (auto simp: NewJSONSerializationTestCase_def withTestCases_unchanged)
  qed
  with run dom show "\<exists>g. stage_action (InjectJsonSerializationTests idf) ctx types order = (Some g, None)
              \<and> dom g = dom types
              \<and> (\<forall>k d. types k = Some d \<longrightarrow>
                    g k = Some (d\<lparr>Type := withTestCases idf k (Type d)\<rparr>)
                    \<and> (\<forall>ps tcs. Type d = ObjectType ps tcs \<longrightarrow>
                          g k = Some (d\<lparr>Type := ObjectType ps
                                  (tcs @ [NewJSONSerializationTestCase k (Type d) idf])\<rparr>))
                    \<and> (\<forall>sp st tcs. Type d = ResourceType sp st tcs \<longrightarrow>
                          g k = Some (d\<lparr>Type := ResourceType sp st
                                  (tcs @ [NewJSONSerializationTestCase k (Type d) idf])\<rparr>))
                    \<and> (\<not> reaches_container (Type d) \<longrightarrow> g k = Some d)
                    \<and> (reaches_container (Type d) \<longrightarrow> g k \<noteq> Some d))"
    by blast
qed


text \<open>
  Claim C5, as amended. The stage does not look at the context it is given: a run under a
  cancelled context is the run under a live one. With the visitor the stage builds, a run
  under a cancelled context therefore returns the complete graph, with every Identifier of
  the input, and no error.
\<close>

theorem context_is_ignored:
  assumes "keyed_by_name types" and "range_order types order"
  shows "addTestsToAll factory Canceled types order = addTestsToAll factory Background types order
       \<and> stage_action (InjectJsonSerializationTests idf) Canceled types order =
           stage_action (InjectJsonSerializationTests idf) Background types order
       \<and> (\<exists>g. stage_action (InjectJsonSerializationTests idf) Canceled types order = (Some g, None)
              \<and> dom g = dom types)"
proof -
  let ?f = "makeObjectSerializationTestCaseFactory idf"
  have "failures ?f types order = []"
    using length_failures[OF assms(2), of ?f] by (simp add: failing_stage)
  then have "stage_action (InjectJsonSerializationTests idf) Canceled types order =
      (Some (updated_of ?f types), None)"
    using addTestsToAll_eq[OF assms] by (simp add: stage_action_eq)
  moreover have "dom (updated_of ?f types) = dom types"
    by (rule dom_updated_of) (rule failing_stage)
  ultimately show ?thesis
    by (simp add: stage_action_eq addTestsToAll_def)
qed

text \<open>
  Claim C2. Two runs of the stage on the same Type Graph return identical results,
  whatever the two orders in which \<^verbatim>\<open>range\<close> visits the graph: the same output graph, with
  every Identifier of the input, and the error \<^verbatim>\<open>nil\<close>. The result of the stage does not
  depend on the order of the iteration: the graph is a map, and with the two handlers of
  the stage no Declaration fails, so that no list of errors is ever reported.
\<close>

theorem stage_is_deterministic:
  assumes "keyed_by_name types" and "range_order types order1" and "range_order types order2"
  shows "stage_action (InjectJsonSerializationTests idf) ctx types order1 =
           stage_action (InjectJsonSerializationTests idf) ctx types order2
       \<and> (\<exists>g. stage_action (InjectJsonSerializationTests idf) ctx types order1 = (Some g, None)
              \<and> dom g = dom types
              \<and> (\<forall>k d. types k = Some d \<longrightarrow>
                     g k = Some (d\<lparr>Type := withTestCases idf k (Type d)\<rparr>)))"
proof -
  let ?f = "makeObjectSerializationTestCaseFactory idf"
  have run: "stage_action (InjectJsonSerializationTests idf) ctx types order =
      (Some (updated_of ?f types), None)" if "range_order types order" for order
  proof -
    have "failures ?f types order = []"
      using length_failures[OF that, of ?f] by (simp add: failing_stage)
    then show ?thesis
      using addTestsToAll_eq[OF assms(1) that] by (simp add: stage_action_eq)
  qed
  have dom: "dom (updated_of ?f types) = dom types"
    by (rule dom_updated_of) (rule failing_stage)
  have each: "\<forall>k d. types k = Some d \<longrightarrow>
      updated_of ?f types k = Some (d\<lparr>Type := withTestCases idf k (Type d)\<rparr>)"
    using assms(1) by (simp add: updated_of_stage keyed_by_name_def)
  show ?thesis
    unfolding run[OF assms(2)] run[OF assms(3)] using dom each by simp
qed

lemma range_types_store_eq:
  assumes "types < length h" "result < length h" "types \<noteq> result"
  shows "range_types_store factory types result order (h, errs) =
     (h[result := fst (range_types factory (h ! types) order (h ! result, errs))],
      snd (range_types factory (h ! types) order (h ! result, errs)))"
  using assms
proof (induction order arbitrary: h errs)
  case Nil
  then show ?case by simp
next
  case (Cons k order)
  show ?case
  proof (cases "(h ! types) k")
    case None
    then show ?thesis using Cons by simp
  next
    case (Some d)
    show ?thesis
    proof (cases "AddTestTo factory d")
      case (Inl e)
      then show ?thesis using Some Cons by simp
    next
      case (Inr u)
      let ?h = "h[result := (h ! result)(Name u \<mapsto> u)]"
      have len: "types < length ?h" "result < length ?h" using Cons.prems by simp_all
      have rd: "?h ! types = h ! types" "?h ! result = (h ! result)(Name u \<mapsto> u)"
        using Cons.prems by simp_all
      have ow: "?h[result := x] = h[result := x]" for x by simp
      have store: "range_types_store factory types result (k # order) (h, errs) =
          range_types_store factory types result order (?h, errs)"
        using Some Inr by simp
      have pure: "range_types factory (h ! types) (k # order) (h ! result, errs) =
          range_types factory (h ! types) order ((h ! result)(Name u \<mapsto> u), errs)"
        using Some Inr by simp
      show ?thesis
        unfolding store pure Cons.IH[OF len Cons.prems(3), of errs] rd ow ..
    qed
  qed
qed

text \<open>
  Claim C6. The stage never writes to its input: after a run, every map that was in the
  store before the call, the input map among them, is as it was; the graph the stage
  returns is a map that did not exist before the call, and it holds what the stage
  computes from the input map.
\<close>

theorem input_map_is_not_written:
  assumes "types < length h"
  shows "case addTestsToAll_store factory ctx types order h of
           ((result, err), h') \<Rightarrow>
             (\<forall>r < length h. h' ! r = h ! r)
             \<and> length h' = Suc (length h)
             \<and> (\<forall>r. result = Some r \<longrightarrow> r = length h)
             \<and> (map_option (\<lambda>r. h' ! r) result, err) = addTestsToAll factory ctx (h ! types) order"
proof -
  let ?h0 = "h @ [Map.empty]"
  let ?run = "range_types factory (h ! types) order (Map.empty, [])"
  have "range_types_store factory types (length h) order (?h0, []) =
          (?h0[length h := fst ?run], snd ?run)"
    using range_types_store_eq[of types ?h0 "length h" factory order "[]"] assms
    by (simp add: nth_append)
  then show ?thesis
    using assms
    by (simp add: addTestsToAll_store_def addTestsToAll_def Let_def nth_append split_beta)
qed

text \<open>
  Claim C7. For every Object or Resource Declaration, \<^verbatim>\<open>AddTestTo\<close> gives the visitor the
  Declaration's own Identifier as context; the handler the visitor calls builds the test
  case from the context it receives; so the result is the Declaration with the same
  Identifier whose type is the original with the test case of that Identifier attached.
\<close>

theorem AddTestTo_uses_own_name:
  assumes "is_container (Type def)"
  shows "AddTestTo factory def = VisitDefinition (visitor factory) def (Name def)
       \<and> Visit (visitor (makeObjectSerializationTestCaseFactory idf)) (Type def) ctx =
           Inr (WithTestCase (Type def) (NewJSONSerializationTestCase ctx (Type def) idf))
       \<and> AddTestTo (makeObjectSerializationTestCaseFactory idf) def =
           Inr (def\<lparr>Type := WithTestCase (Type def)
                              (NewJSONSerializationTestCase (Name def) (Type def) idf)\<rparr>)"
proof -
  have v: "Visit (visitor (makeObjectSerializationTestCaseFactory idf)) (Type def) c =
           Inr (WithTestCase (Type def) (NewJSONSerializationTestCase c (Type def) idf))" for c
    using assms
    by (cases "Type def")
       (simp_all add: is_container_def makeObjectSerializationTestCaseFactory_def
          injectTestCaseIntoResource_def injectTestCaseIntoObject_def)
  show ?thesis
    by (simp add: v) (simp add: AddTestTo_def VisitDefinition_def v)
qed

subsection \<open>The stage on the small Type Graph\<close>

lemmas example_defs = example_Account_def example_Blob_def example_Kind_def example_types_def
  example_failing_factory_def example_wrapped_def

lemma example_types_keyed: "keyed_by_name example_types"
  by (simp add: keyed_by_name_def example_defs)

lemma example_types_order1: "range_order example_types [example_Account, example_Blob, example_Kind]"
  by (auto simp: range_order_def example_defs)

lemma example_types_order2: "range_order example_types [example_Blob, example_Kind, example_Account]"
  by (auto simp: range_order_def example_defs)

lemma example_failing: "failing example_failing_factory example_types = {example_Account, example_Blob}"
  by (auto simp: failing_def example_defs AddTestTo_def VisitDefinition_def split: if_splits)

lemma example_failing_card: "card (failing example_failing_factory example_types) = 2"
  by (simp add: example_failing) (simp add: example_defs)

lemma example_wrapped_keyed: "keyed_by_name example_wrapped"
  by (simp add: keyed_by_name_def example_defs)

lemma example_wrapped_order: "range_order example_wrapped [example_Account]"
  by (auto simp: range_order_def example_defs)

lemma example_stage_types:
  "stage_action (InjectJsonSerializationTests ()) ctx example_types
       [example_Account, example_Blob, example_Kind] =
     (Some [example_Account \<mapsto> \<lparr>Name = example_Account,
              Type = ObjectType [(''kind'', Reference example_Kind)]
                [JSONSerializationTestCase example_Account
                   (ObjectType [(''kind'', Reference example_Kind)] []) ()]\<rparr>,
            example_Blob \<mapsto> \<lparr>Name = example_Blob,
              Type = ResourceType (ObjectType [] []) (PrimitiveType ''string'')
                [JSONSerializationTestCase example_Blob
                   (ResourceType (ObjectType [] []) (PrimitiveType ''string'') []) ()]\<rparr>,
            example_Kind \<mapsto> \<lparr>Name = example_Kind, Type = EnumType ''string'' [''Hot'', ''Cool'']\<rparr>],
      None)"
  by (simp add: InjectJsonSerializationTests_def MakeLegacyStage_def jsonTestCases_def
       addTestsToAll_def AddTestTo_def VisitDefinition_def NewAggregate_def example_defs
       makeObjectSerializationTestCaseFactory_def injectTestCaseIntoObject_def
       injectTestCaseIntoResource_def NewJSONSerializationTestCase_def)

theorem injection_fail_closed_counterexample:
  "keyed_by_name example_wrapped
   \<and> range_order example_wrapped [example_Account]
   \<and> example_wrapped example_Account =
        Some \<lparr>Name = example_Account, Type = OptionalType (ObjectType [] [])\<rparr>
   \<and> \<not> is_container (OptionalType (ObjectType [] []) :: unit Type)
   \<and> failing (makeObjectSerializationTestCaseFactory ()) example_wrapped = {}
   \<and> (\<exists>g. stage_action (InjectJsonSerializationTests ()) Background example_wrapped
              [example_Account] = (Some g, None)
          \<and> g example_Account \<noteq> example_wrapped example_Account)"
proof -
  have "stage_action (InjectJsonSerializationTests ()) Background example_wrapped [example_Account] =
     (Some [example_Account \<mapsto> \<lparr>Name = example_Account,
              Type = OptionalType (ObjectType []
                [JSONSerializationTestCase example_Account (ObjectType [] []) ()])\<rparr>], None)"
    by (simp add: InjectJsonSerializationTests_def MakeLegacyStage_def jsonTestCases_def
         addTestsToAll_def AddTestTo_def VisitDefinition_def NewAggregate_def example_defs
         makeObjectSerializationTestCaseFactory_def injectTestCaseIntoObject_def
         NewJSONSerializationTestCase_def)
  moreover have "example_wrapped example_Account =
        Some \<lparr>Name = example_Account, Type = OptionalType (ObjectType [] [])\<rparr>"
    by (simp add: example_defs)
  ultimately show ?thesis
    using example_wrapped_keyed example_wrapped_order
    by (simp add: is_container_def failing_stage)
qed

theorem injection_fail_closed_witness:
  "keyed_by_name example_types
   \<and> range_order example_types [example_Account, example_Blob, example_Kind]
   \<and> card (failing example_failing_factory example_types) = 2
   \<and> (\<exists>errs. addTestsToAll example_failing_factory Background example_types
                 [example_Account, example_Blob, example_Kind] = (None, Some (Aggregate errs))
             \<and> length errs = 2)
   \<and> card (failing (makeObjectSerializationTestCaseFactory ()) example_types) = 0
   \<and> (\<exists>g. addTestsToAll (makeObjectSerializationTestCaseFactory ()) Background example_types
              [example_Account, example_Blob, example_Kind] = (Some g, None)
          \<and> dom g = dom example_types)
   \<and> (\<exists>g. stage_action (InjectJsonSerializationTests ()) Background example_types
              [example_Account, example_Blob, example_Kind] = (Some g, None)
          \<and> g example_Kind = example_types example_Kind
          \<and> g example_Account = Some \<lparr>Name = example_Account,
                Type = ObjectType [(''kind'', Reference example_Kind)]
                  [NewJSONSerializationTestCase example_Account
                     (ObjectType [(''kind'', Reference example_Kind)] []) ()]\<rparr>)"
proof -
  note thm1 = injection_fail_closed[OF example_types_keyed example_types_order1,
      of example_failing_factory Background "()"]
  note thm2 = injection_fail_closed[OF example_types_keyed example_types_order1,
      of "makeObjectSerializationTestCaseFactory ()" Background "()"]
  have c0: "card (failing (makeObjectSerializationTestCaseFactory ()) example_types) = 0"
    by (simp add: failing_stage)
  have a: "\<exists>errs. addTestsToAll example_failing_factory Background example_types
                 [example_Account, example_Blob, example_Kind] = (None, Some (Aggregate errs))
             \<and> length errs = 2"
    using thm1 example_failing_card by simp
  have b: "\<exists>g. addTestsToAll (makeObjectSerializationTestCaseFactory ()) Background example_types
              [example_Account, example_Blob, example_Kind] = (Some g, None)
          \<and> dom g = dom example_types"
    using thm2 c0 by blast
  note third = thm1[THEN conjunct2, THEN conjunct2]
  then obtain g where g: "stage_action (InjectJsonSerializationTests ()) Background example_types
              [example_Account, example_Blob, example_Kind] = (Some g, None)"
     and all: "\<forall>k d. example_types k = Some d \<longrightarrow>
            g k = Some (d\<lparr>Type := withTestCases () k (Type d)\<rparr>)
            \<and> (\<forall>ps tcs. Type d = ObjectType ps tcs \<longrightarrow>
                g k = Some (d\<lparr>Type := ObjectType ps
                        (tcs @ [NewJSONSerializationTestCase k (Type d) ()])\<rparr>))
            \<and> (\<forall>sp st tcs. Type d = ResourceType sp st tcs \<longrightarrow>
                g k = Some (d\<lparr>Type := ResourceType sp st
                        (tcs @ [NewJSONSerializationTestCase k (Type d) ()])\<rparr>))
            \<and> (\<not> reaches_container (Type d) \<longrightarrow> g k = Some d)
            \<and> (reaches_container (Type d) \<longrightarrow> g k \<noteq> Some d)"
    by (elim exE conjE) (rule that)
  have each: "(\<forall>ps tcs. Type d = ObjectType ps tcs \<longrightarrow>
                g k = Some (d\<lparr>Type := ObjectType ps
                        (tcs @ [NewJSONSerializationTestCase k (Type d) ()])\<rparr>))
            \<and> (\<not> reaches_container (Type d) \<longrightarrow> g k = Some d)"
    if "example_types k = Some d" for k d
    using all[rule_format, OF that] by blast
  have "g example_Kind = example_types example_Kind"
    using each[of example_Kind "\<lparr>Name = example_Kind, Type = EnumType ''string'' [''Hot'', ''Cool'']\<rparr>"]
    by (simp add: example_defs)
  moreover have "g example_Account = Some \<lparr>Name = example_Account,
                Type = ObjectType [(''kind'', Reference example_Kind)]
                  [NewJSONSerializationTestCase example_Account
                     (ObjectType [(''kind'', Reference example_Kind)] []) ()]\<rparr>"
    using each[of example_Account "\<lparr>Name = example_Account,
                           Type = ObjectType [(''kind'', Reference example_Kind)] []\<rparr>"]
    by (simp add: example_defs)
  ultimately have c: "\<exists>g. stage_action (InjectJsonSerializationTests ()) Background example_types
              [example_Account, example_Blob, example_Kind] = (Some g, None)
          \<and> g example_Kind = example_types example_Kind
          \<and> g example_Account = Some \<lparr>Name = example_Account,
                Type = ObjectType [(''kind'', Reference example_Kind)]
                  [NewJSONSerializationTestCase example_Account
                     (ObjectType [(''kind'', Reference example_Kind)] []) ()]\<rparr>"
    using g by (intro exI[of _ g] conjI)
  show ?thesis
    by (intro conjI example_types_keyed example_types_order1 example_failing_card c0 a b c)
qed

theorem stage_is_deterministic_witness:
  "keyed_by_name example_types
   \<and> range_order example_types [example_Account, example_Blob, example_Kind]
   \<and> range_order example_types [example_Blob, example_Kind, example_Account]
   \<and> stage_action (InjectJsonSerializationTests ()) Background example_types
        [example_Blob, example_Kind, example_Account]
      = (Some [example_Account \<mapsto> \<lparr>Name = example_Account,
              Type = ObjectType [(''kind'', Reference example_Kind)]
                [JSONSerializationTestCase example_Account
                   (ObjectType [(''kind'', Reference example_Kind)] []) ()]\<rparr>,
            example_Blob \<mapsto> \<lparr>Name = example_Blob,
              Type = ResourceType (ObjectType [] []) (PrimitiveType ''string'')
                [JSONSerializationTestCase example_Blob
                   (ResourceType (ObjectType [] []) (PrimitiveType ''string'') []) ()]\<rparr>,
            example_Kind \<mapsto> \<lparr>Name = example_Kind, Type = EnumType ''string'' [''Hot'', ''Cool'']\<rparr>],
         None)"
proof -
  note inst = stage_is_deterministic[OF example_types_keyed example_types_order1
      example_types_order2, of "()" Background, THEN conjunct1]
  have other: "stage_action (InjectJsonSerializationTests ()) Background example_types
        [example_Blob, example_Kind, example_Account]
      = (Some [example_Account \<mapsto> \<lparr>Name = example_Account,
              Type = ObjectType [(''kind'', Reference example_Kind)]
                [JSONSerializationTestCase example_Account
                   (ObjectType [(''kind'', Reference example_Kind)] []) ()]\<rparr>,
            example_Blob \<mapsto> \<lparr>Name = example_Blob,
              Type = ResourceType (ObjectType [] []) (PrimitiveType ''string'')
                [JSONSerializationTestCase example_Blob
                   (ResourceType (ObjectType [] []) (PrimitiveType ''string'') []) ()]\<rparr>,
            example_Kind \<mapsto> \<lparr>Name = example_Kind, Type = EnumType ''string'' [''Hot'', ''Cool'']\<rparr>],
         None)"
    unfolding inst[symmetric] by (rule example_stage_types)
  show ?thesis
    by (intro conjI example_types_keyed example_types_order1 example_types_order2 other)
qed

theorem no_fail_fast_witness:
  "range_order example_types [example_Blob, example_Kind, example_Account]
   \<and> AddTestTo example_failing_factory
         \<lparr>Name = example_Blob,
          Type = ResourceType (ObjectType [] []) (PrimitiveType ''string'') []\<rparr>
       = Inl (Errorf ''no legal test name for Blob'')
   \<and> length (snd (range_types_traced example_failing_factory example_types
                 [example_Blob, example_Kind, example_Account] ((Map.empty, []), []))) = 3
   \<and> (\<exists>errs. addTestsToAll example_failing_factory Background example_types
                 [example_Blob, example_Kind, example_Account] = (None, Some (Aggregate errs))
             \<and> Errorf ''no legal test name for Account'' \<in> set errs)"
proof -
  note inst = no_fail_fast[OF example_types_order2, of example_failing_factory Background]
  have first: "AddTestTo example_failing_factory
         \<lparr>Name = example_Blob,
          Type = ResourceType (ObjectType [] []) (PrimitiveType ''string'') []\<rparr>
       = Inl (Errorf ''no legal test name for Blob'')"
    by (simp add: AddTestTo_def VisitDefinition_def example_defs)
  have "card (dom example_types) = 3"
    by (simp add: example_defs)
  then have calls: "length (snd (range_types_traced example_failing_factory example_types
                 [example_Blob, example_Kind, example_Account] ((Map.empty, []), []))) = 3"
    using inst by simp
  have "example_types example_Account =
          Some \<lparr>Name = example_Account, Type = ObjectType [(''kind'', Reference example_Kind)] []\<rparr>
        \<and> AddTestTo example_failing_factory
          \<lparr>Name = example_Account, Type = ObjectType [(''kind'', Reference example_Kind)] []\<rparr>
          = Inl (Errorf ''no legal test name for Account'')"
    by (simp add: AddTestTo_def VisitDefinition_def example_defs)
  then have last: "\<exists>errs. addTestsToAll example_failing_factory Background example_types
                 [example_Blob, example_Kind, example_Account] = (None, Some (Aggregate errs))
             \<and> Errorf ''no legal test name for Account'' \<in> set errs"
    using inst[THEN conjunct2, THEN conjunct2, THEN conjunct2, rule_format] by blast
  show ?thesis
    by (intro conjI example_types_order2 first calls last)
qed

theorem context_is_ignored_counterexample:
  "stage_action (InjectJsonSerializationTests ()) Canceled example_types
       [example_Account, example_Blob, example_Kind] =
     (Some [example_Account \<mapsto> \<lparr>Name = example_Account,
              Type = ObjectType [(''kind'', Reference example_Kind)]
                [JSONSerializationTestCase example_Account
                   (ObjectType [(''kind'', Reference example_Kind)] []) ()]\<rparr>,
            example_Blob \<mapsto> \<lparr>Name = example_Blob,
              Type = ResourceType (ObjectType [] []) (PrimitiveType ''string'')
                [JSONSerializationTestCase example_Blob
                   (ResourceType (ObjectType [] []) (PrimitiveType ''string'') []) ()]\<rparr>,
            example_Kind \<mapsto> \<lparr>Name = example_Kind, Type = EnumType ''string'' [''Hot'', ''Cool'']\<rparr>],
      None)"
  by (rule example_stage_types)

theorem context_is_ignored_witness:
  "keyed_by_name example_types
   \<and> range_order example_types [example_Account, example_Blob, example_Kind]
   \<and> addTestsToAll example_failing_factory Canceled example_types
        [example_Account, example_Blob, example_Kind]
      = addTestsToAll example_failing_factory Background example_types
        [example_Account, example_Blob, example_Kind]
   \<and> (\<exists>g. stage_action (InjectJsonSerializationTests ()) Canceled example_types
              [example_Account, example_Blob, example_Kind] = (Some g, None)
          \<and> dom g = dom example_types)"
proof -
  note inst = context_is_ignored[OF example_types_keyed example_types_order1,
      of example_failing_factory "()"]
  show ?thesis
    by (intro conjI example_types_keyed example_types_order1 inst[THEN conjunct1]
          inst[THEN conjunct2, THEN conjunct2])
qed

theorem input_map_is_not_written_witness:
  "(0::nat) < length [example_types]
   \<and> addTestsToAll_store (makeObjectSerializationTestCaseFactory ()) Background 0
        [example_Account, example_Blob, example_Kind] [example_types]
      = ((Some 1, None),
         [example_types,
          [example_Account \<mapsto> \<lparr>Name = example_Account,
              Type = ObjectType [(''kind'', Reference example_Kind)]
                [JSONSerializationTestCase example_Account
                   (ObjectType [(''kind'', Reference example_Kind)] []) ()]\<rparr>,
            example_Blob \<mapsto> \<lparr>Name = example_Blob,
              Type = ResourceType (ObjectType [] []) (PrimitiveType ''string'')
                [JSONSerializationTestCase example_Blob
                   (ResourceType (ObjectType [] []) (PrimitiveType ''string'') []) ()]\<rparr>,
            example_Kind \<mapsto> \<lparr>Name = example_Kind, Type = EnumType ''string'' [''Hot'', ''Cool'']\<rparr>]])"
proof -
  obtain result err h' where run:
    "addTestsToAll_store (makeObjectSerializationTestCaseFactory ()) Background 0
        [example_Account, example_Blob, example_Kind] [example_types] = ((result, err), h')"
    by (metis surj_pair)
  have h: "(0::nat) < length [example_types]" by simp
  note inst = input_map_is_not_written[OF h, of "makeObjectSerializationTestCaseFactory ()"
      Background "[example_Account, example_Blob, example_Kind]"]
  have old: "h' ! 0 = example_types" and len: "length h' = 2"
    and ref: "\<forall>r. result = Some r \<longrightarrow> r = 1"
    and val: "(map_option (\<lambda>r. h' ! r) result, err) =
        addTestsToAll (makeObjectSerializationTestCaseFactory ()) Background example_types
          [example_Account, example_Blob, example_Kind]"
    using inst by (simp_all add: run)
  have val': "(map_option (\<lambda>r. h' ! r) result, err) =
     (Some [example_Account \<mapsto> \<lparr>Name = example_Account,
              Type = ObjectType [(''kind'', Reference example_Kind)]
                [JSONSerializationTestCase example_Account
                   (ObjectType [(''kind'', Reference example_Kind)] []) ()]\<rparr>,
            example_Blob \<mapsto> \<lparr>Name = example_Blob,
              Type = ResourceType (ObjectType [] []) (PrimitiveType ''string'')
                [JSONSerializationTestCase example_Blob
                   (ResourceType (ObjectType [] []) (PrimitiveType ''string'') []) ()]\<rparr>,
            example_Kind \<mapsto> \<lparr>Name = example_Kind, Type = EnumType ''string'' [''Hot'', ''Cool'']\<rparr>],
      None)"
    using val example_stage_types[of Background] by (simp add: stage_action_eq)
  then have r: "result = Some 1" and e: "err = None" using ref by auto
  from len obtain x y where h': "h' = [x, y]"
    by (metis (no_types, opaque_lifting) One_nat_def Suc_1 length_0_conv length_Suc_conv)
  show ?thesis
    using old val' r e by (simp add: run h')
qed

theorem AddTestTo_uses_own_name_witness:
  "is_container (ObjectType [(''kind'', Reference example_Kind)] [] :: unit Type)
   \<and> AddTestTo (makeObjectSerializationTestCaseFactory ())
        \<lparr>Name = example_Account, Type = ObjectType [(''kind'', Reference example_Kind)] []\<rparr>
      = Inr \<lparr>Name = example_Account,
             Type = ObjectType [(''kind'', Reference example_Kind)]
                [JSONSerializationTestCase example_Account
                   (ObjectType [(''kind'', Reference example_Kind)] []) ()]\<rparr>"
proof -
  have c: "is_container (Type \<lparr>Name = example_Account,
      Type = ObjectType [(''kind'', Reference example_Kind)] [] :: unit Type\<rparr>)"
    by (simp add: is_container_def)
  show ?thesis
    using AddTestTo_uses_own_name[OF c, of undefined "()" undefined] c
    by (simp add: NewJSONSerializationTestCase_def)
qed


section \<open>What is hidden in a recording\<close>

lemma star_rests_hd: "\<exists>rs. star_rests c s = dropWhile (accepts c) s # rs"
  by (induction s) auto

lemma matches_Lit_Cat:
  "matches (Cat (One (Lit a)) r) s = (case s of [] \<Rightarrow> [] | x # xs \<Rightarrow> if x = a then matches r xs else [])"
  by (cases s) auto

lemma concat_map_Eps: "concat (map (matches Eps) xs) = xs"
  by (induction xs) auto

lemma matches_ssh_prefix: "matches sshKeyMatcher (''ssh-rsa '' @ t) = matches (Plus keyChars) t"
  by (simp add: sshKeyMatcher_def concat_map_Eps)

lemma matches_ssh_nonempty:
  assumes "matches sshKeyMatcher s \<noteq> []"
  shows "\<exists>t. s = ''ssh-rsa '' @ t"
  using assms unfolding sshKeyMatcher_def
  by (simp add: matches_Lit_Cat del: matches.simps split: list.splits if_splits)

lemma firstMatch_ssh_match:
  assumes "accepts keyChars k"
  shows "firstMatch sshKeyMatcher (''ssh-rsa '' @ k # r) = Some (dropWhile (accepts keyChars) r)"
proof -
  obtain rs where "star_rests keyChars r = dropWhile (accepts keyChars) r # rs"
    using star_rests_hd by blast
  then show ?thesis
    using assms unfolding firstMatch_def matches_ssh_prefix by simp
qed

lemma firstMatch_ssh_nomatch:
  assumes "\<not> sshKeyAt s"
  shows "firstMatch sshKeyMatcher s = None"
proof (cases "matches sshKeyMatcher s")
  case Nil
  then show ?thesis by (simp add: firstMatch_def)
next
  case (Cons a list)
  then have "matches sshKeyMatcher s \<noteq> []" by simp
  then obtain t where t: "s = ''ssh-rsa '' @ t" using matches_ssh_nonempty by blast
  with Cons have "matches (Plus keyChars) t \<noteq> []" using matches_ssh_prefix by simp
  then obtain k r where "t = k # r" "accepts keyChars k"
    by (cases t) (auto split: if_splits)
  then have "sshKeyAt s" using t by (auto simp: sshKeyAt_def)
  then show ?thesis using assms by simp
qed


lemma hideSSHKeys_Nil: "hideSSHKeys [] = []"
  by (simp add: hideSSHKeys_def)

lemma hideSSHKeys_match:
  assumes "accepts keyChars k"
  shows "hideSSHKeys (''ssh-rsa '' @ k # r) = ''ssh-rsa {KEY}'' @ hideSSHKeys (dropWhile (accepts keyChars) r)"
proof -
  have "length (dropWhile (accepts keyChars) r) \<le> length r"
    by (rule length_dropWhile_le)
  then show ?thesis
    using firstMatch_ssh_match[OF assms, of r]
    by (simp add: hideSSHKeys_def)
qed

lemma hideSSHKeys_nomatch:
  assumes "\<not> sshKeyAt (x # xs)"
  shows "hideSSHKeys (x # xs) = x # hideSSHKeys xs"
  using firstMatch_ssh_nomatch[OF assms] by (simp add: hideSSHKeys_def)


lemma hideSSHKeys_replacement:
  "hideSSHKeys (''ssh-rsa {KEY}'' @ t) = ''ssh-rsa {KEY}'' @ hideSSHKeys t"
  by (simp add: hideSSHKeys_nomatch sshKeyAt_def keyChars_def)

lemma hideSSHKeys_first:
  assumes "hideSSHKeys t = c # u"
  shows "\<exists>t'. t = c # t'"
proof (cases t)
  case Nil
  then show ?thesis using assms by (simp add: hideSSHKeys_Nil)
next
  case (Cons x xs)
  show ?thesis
  proof (cases "sshKeyAt t")
    case True
    then obtain k r where "t = ''ssh-rsa '' @ k # r" "accepts keyChars k"
      by (auto simp: sshKeyAt_def)
    then show ?thesis using assms hideSSHKeys_match by auto
  next
    case False
    then show ?thesis using assms Cons hideSSHKeys_nomatch by auto
  qed
qed

lemma hideSSHKeys_step:
  assumes "hideSSHKeys t = c # u" and "\<not> (c = CHR ''s'' \<and> (\<exists>u'. u = CHR ''s'' # u'))"
  shows "\<exists>t'. t = c # t' \<and> hideSSHKeys t' = u"
proof (cases t)
  case Nil
  then show ?thesis using assms by (simp add: hideSSHKeys_Nil)
next
  case (Cons x xs)
  show ?thesis
  proof (cases "sshKeyAt t")
    case True
    then obtain k r where "t = ''ssh-rsa '' @ k # r" "accepts keyChars k"
      by (auto simp: sshKeyAt_def)
    then have "hideSSHKeys t = ''ssh-rsa {KEY}'' @ hideSSHKeys (dropWhile (accepts keyChars) r)"
      using hideSSHKeys_match by simp
    then show ?thesis using assms by simp
  next
    case False
    then show ?thesis using assms Cons hideSSHKeys_nomatch by auto
  qed
qed

lemma sshKeyAt_preserved:
  assumes "sshKeyAt (x # hideSSHKeys xs)"
  shows "sshKeyAt (x # xs)"
proof -
  from assms obtain k r where x: "x = CHR ''s''"
      and 0: "hideSSHKeys xs = CHR ''s'' # ''h-rsa '' @ k # r" and k: "accepts keyChars k"
    by (auto simp: sshKeyAt_def)
  from hideSSHKeys_step[OF 0] obtain t1 where t1: "xs = CHR ''s'' # t1"
      and 1: "hideSSHKeys t1 = CHR ''h'' # ''-rsa '' @ k # r" by auto
  from hideSSHKeys_step[OF 1] obtain t2 where t2: "t1 = CHR ''h'' # t2"
      and 2: "hideSSHKeys t2 = CHR ''-'' # ''rsa '' @ k # r" by auto
  from hideSSHKeys_step[OF 2] obtain t3 where t3: "t2 = CHR ''-'' # t3"
      and 3: "hideSSHKeys t3 = CHR ''r'' # ''sa '' @ k # r" by auto
  from hideSSHKeys_step[OF 3] obtain t4 where t4: "t3 = CHR ''r'' # t4"
      and 4: "hideSSHKeys t4 = CHR ''s'' # ''a '' @ k # r" by auto
  from hideSSHKeys_step[OF 4] obtain t5 where t5: "t4 = CHR ''s'' # t5"
      and 5: "hideSSHKeys t5 = CHR ''a'' # '' '' @ k # r" by auto
  from hideSSHKeys_step[OF 5] obtain t6 where t6: "t5 = CHR ''a'' # t6"
      and 6: "hideSSHKeys t6 = CHR '' '' # k # r" by auto
  from hideSSHKeys_step[OF 6] obtain t7 where t7: "t6 = CHR '' '' # t7"
      and 7: "hideSSHKeys t7 = k # r" by auto
  from hideSSHKeys_first[OF 7] obtain t8 where t8: "t7 = k # t8" by auto
  show ?thesis
    using k by (simp add: sshKeyAt_def x t1 t2 t3 t4 t5 t6 t7 t8)
qed

lemma hideSSHKeys_idempotent: "hideSSHKeys (hideSSHKeys s) = hideSSHKeys s"
proof (induction s rule: length_induct)
  case (1 s)
  show ?case
  proof (cases s)
    case Nil
    then show ?thesis by (simp add: hideSSHKeys_Nil)
  next
    case (Cons x xs)
    show ?thesis
    proof (cases "sshKeyAt s")
      case True
      then obtain k r where s: "s = ''ssh-rsa '' @ k # r" and k: "accepts keyChars k"
        by (auto simp: sshKeyAt_def)
      let ?rest = "dropWhile (accepts keyChars) r"
      have "length ?rest < length s"
        using length_dropWhile_le[of "accepts keyChars" r] by (simp add: s)
      then have "hideSSHKeys (hideSSHKeys ?rest) = hideSSHKeys ?rest"
        using 1 by blast
      then show ?thesis
        unfolding s hideSSHKeys_match[OF k] hideSSHKeys_replacement by simp
    next
      case False
      then have "\<not> sshKeyAt (x # hideSSHKeys xs)"
        using sshKeyAt_preserved Cons by blast
      moreover have "hideSSHKeys (hideSSHKeys xs) = hideSSHKeys xs"
        using 1 Cons by simp
      ultimately show ?thesis
        using False Cons by (simp add: hideSSHKeys_nomatch)
    qed
  qed
qed


lemma hideRecordingData_example:
  "hideRecordingData ''at 2021-07-09T11:12:13.456Z key ssh-rsa AAAAB3Nza+/= user@host''
     = ''at 2001-02-03T04:05:06Z key ssh-rsa {KEY} user@host''"
  by code_simp

lemma hideDates_example:
  "hideDates ''at 2001-02-03T04:05:06Z key ssh-rsa {KEY} user@host''
     = ''at 2001-02-03T04:05:06Z key ssh-rsa {KEY} user@host''"
  by code_simp

text \<open>
  Claim C8: \<^verbatim>\<open>hideRecordingData\<close> applied twice is \<^verbatim>\<open>hideRecordingData\<close> applied once. The code
  does not do that on a date with a fraction of a second whose \<^verbatim>\<open>Z\<close> is followed by
  digits and \<^verbatim>\<open>Z\<close>: the first pass replaces the date, and in the result the unescaped
  \<^verbatim>\<open>.\<close> of the pattern matches the \<^verbatim>\<open>Z\<close> of the replacement date, so that the second pass
  takes the tail for a fraction and replaces it as well.
\<close>

theorem hideRecordingData_not_idempotent:
  "hideRecordingData ''2021-07-09T11:12:13.5Z7Z'' = ''2001-02-03T04:05:06Z7Z''
   \<and> hideRecordingData (hideRecordingData ''2021-07-09T11:12:13.5Z7Z'') = ''2001-02-03T04:05:06Z''
   \<and> hideRecordingData (hideRecordingData ''2021-07-09T11:12:13.5Z7Z'')
        \<noteq> hideRecordingData ''2021-07-09T11:12:13.5Z7Z''"
  by code_simp

text \<open>
  What holds of the code as it is: \<^verbatim>\<open>hideSSHKeys\<close> is idempotent, and
  \<^verbatim>\<open>hideRecordingData\<close> applied twice is \<^verbatim>\<open>hideRecordingData\<close> applied once on every string
  whose hidden form \<^verbatim>\<open>hideDates\<close> leaves unchanged; the replacement date and
  \<^verbatim>\<open>ssh-rsa {KEY}\<close> on their own are left unchanged. Only the date pattern stands in the
  way of idempotence.
\<close>

lemma hideRecordingData_idempotent_when_dates_stay:
  "hideSSHKeys (hideSSHKeys s) = hideSSHKeys s
   \<and> (hideDates (hideRecordingData s) = hideRecordingData s
        \<longrightarrow> hideRecordingData (hideRecordingData s) = hideRecordingData s)
   \<and> hideRecordingData ''2001-02-03T04:05:06Z'' = ''2001-02-03T04:05:06Z''
   \<and> hideRecordingData ''ssh-rsa {KEY}'' = ''ssh-rsa {KEY}''"
proof (intro conjI impI)
  show "hideSSHKeys (hideSSHKeys s) = hideSSHKeys s"
    by (rule hideSSHKeys_idempotent)
  show "hideRecordingData (hideRecordingData s) = hideRecordingData s"
    if "hideDates (hideRecordingData s) = hideRecordingData s"
  proof -
    have "hideRecordingData (hideRecordingData s) = hideSSHKeys (hideDates (hideRecordingData s))"
      by (simp add: hideRecordingData_def)
    also have "\<dots> = hideSSHKeys (hideRecordingData s)" using that by simp
    also have "\<dots> = hideRecordingData s"
      by (simp add: hideRecordingData_def hideSSHKeys_idempotent)
    finally show ?thesis .
  qed
  show "hideRecordingData ''2001-02-03T04:05:06Z'' = ''2001-02-03T04:05:06Z''"
    by code_simp
  show "hideRecordingData ''ssh-rsa {KEY}'' = ''ssh-rsa {KEY}''"
    by code_simp
qed

lemma hideRecordingData_idempotent_when_dates_stay_example:
  "hideDates (hideRecordingData ''at 2021-07-09T11:12:13.456Z key ssh-rsa AAAAB3Nza+/= user@host'')
     = hideRecordingData ''at 2021-07-09T11:12:13.456Z key ssh-rsa AAAAB3Nza+/= user@host''
   \<and> hideRecordingData (hideRecordingData ''at 2021-07-09T11:12:13.456Z key ssh-rsa AAAAB3Nza+/= user@host'')
     = ''at 2001-02-03T04:05:06Z key ssh-rsa {KEY} user@host''"
proof -
  have stay: "hideDates (hideRecordingData ''at 2021-07-09T11:12:13.456Z key ssh-rsa AAAAB3Nza+/= user@host'')
     = hideRecordingData ''at 2021-07-09T11:12:13.456Z key ssh-rsa AAAAB3Nza+/= user@host''"
    unfolding hideRecordingData_example by (rule hideDates_example)
  from hideRecordingData_idempotent_when_dates_stay
         [of "''at 2021-07-09T11:12:13.456Z key ssh-rsa AAAAB3Nza+/= user@host''",
          THEN conjunct2, THEN conjunct1, rule_format, OF stay]
  have "hideRecordingData (hideRecordingData ''at 2021-07-09T11:12:13.456Z key ssh-rsa AAAAB3Nza+/= user@host'')
     = hideRecordingData ''at 2021-07-09T11:12:13.456Z key ssh-rsa AAAAB3Nza+/= user@host''" .
  then show ?thesis
    using stay unfolding hideRecordingData_example by (intro conjI)
qed

section \<open>The save filter\<close>

lemma contains_append:
  assumes "contains (a @ t) sub" "sub \<noteq> []" "hd sub \<notin> set a"
  shows "contains t sub"
  using assms
proof (induction a)
  case Nil
  then show ?case by simp
next
  case (Cons x a)
  have "take (length sub) ((x # a) @ t) \<noteq> sub"
  proof
    assume "take (length sub) ((x # a) @ t) = sub"
    then have "hd sub = x" using Cons.prems(2) by (cases sub) auto
    then show False using Cons.prems(3) by simp
  qed
  then have "contains (a @ t) sub" using Cons.prems(1) by simp
  then show ?case using Cons by simp
qed

lemma contains_Nil: "contains r []"
  by (induction r) simp_all

lemma contains_prefix_append: "contains (new @ r) new"
  by (cases new) (simp_all add: contains_Nil)

lemma prefix_of_replaced:
  assumes "old \<noteq> []" "new \<noteq> []"
  shows "take (length w) (ReplaceAll t old new) = w \<Longrightarrow> \<not> contains w new
         \<Longrightarrow> (w \<noteq> [] \<longrightarrow> last w \<notin> set new) \<Longrightarrow> take (length w) t = w"
proof (induction t arbitrary: w rule: length_induct)
  case (1 t)
  show ?case
  proof (cases w)
    case Nil
    then show ?thesis by simp
  next
    case (Cons y w')
    show ?thesis
    proof (cases t)
      case Nil
      then show ?thesis using 1(2) assms Cons by simp
    next
      case t: (Cons x xs)
      show ?thesis
      proof (cases "take (length old) t = old")
        case True
        then have R: "ReplaceAll t old new = new @ ReplaceAll (drop (length old) t) old new"
          using assms t by simp
        show ?thesis
        proof (cases "length w \<le> length new")
          case True
          then have "w = take (length w) new" using 1(2) R by simp
          then have "set w \<subseteq> set new" by (metis set_take_subset)
          then have "last w \<in> set new" using Cons by (metis last_in_set list.distinct(1) subsetD)
          then show ?thesis using 1(4) Cons by simp
        next
          case False
          then have "w = new @ take (length w - length new) (ReplaceAll (drop (length old) t) old new)"
            using 1(2) R by simp
          then have "contains w new" using contains_prefix_append by metis
          then show ?thesis using 1(3) by simp
        qed
      next
        case False
        then have R: "ReplaceAll t old new = x # ReplaceAll xs old new"
          using assms t by simp
        then have y: "y = x" and w': "take (length w') (ReplaceAll xs old new) = w'"
          using 1(2) Cons by simp_all
        have "\<not> contains w' new" using 1(3) Cons by simp
        moreover have "w' \<noteq> [] \<longrightarrow> last w' \<notin> set new" using 1(4) Cons by auto
        ultimately have "take (length w') xs = w'"
          using 1(1) w' t by simp
        then show ?thesis using y Cons t by simp
      qed
    qed
  qed
qed

lemma ReplaceAll_free:
  assumes "old \<noteq> []" "hd old \<notin> set new" "last old \<notin> set new" "\<not> contains old new"
  shows "\<not> contains (ReplaceAll s old new) old"
proof (induction s rule: length_induct)
  case (1 s)
  show ?case
  proof (cases s)
    case Nil
    then show ?thesis using assms by simp
  next
    case (Cons x xs)
    show ?thesis
    proof (cases "take (length old) s = old")
      case True
      then have R: "ReplaceAll s old new = new @ ReplaceAll (drop (length old) s) old new"
        using assms Cons by simp
      have "length (drop (length old) s) < length s" using assms Cons by simp
      then have "\<not> contains (ReplaceAll (drop (length old) s) old new) old"
        using 1 by blast
      then show ?thesis
        unfolding R using contains_append[OF _ assms(1,2)] by blast
    next
      case False
      then have R: "ReplaceAll s old new = x # ReplaceAll xs old new"
        using assms Cons by simp
      have rest: "\<not> contains (ReplaceAll xs old new) old" using 1 Cons by simp
      have "take (length old) (x # ReplaceAll xs old new) \<noteq> old"
      proof
        assume eq: "take (length old) (x # ReplaceAll xs old new) = old"
        show False
        proof (cases "new = []")
          case True
          then show ?thesis using assms(4) contains_Nil by simp
        next
          case new: False
          obtain y w where old: "old = y # w" using assms(1) by (cases old) auto
          have "take (length w) (ReplaceAll xs old new) = w" and yx: "y = x"
            using eq old by simp_all
          moreover have "\<not> contains w new" using assms(4) old by simp
          moreover have "w \<noteq> [] \<longrightarrow> last w \<notin> set new" using assms(3) old by auto
          ultimately have "take (length w) xs = w"
            using prefix_of_replaced[OF assms(1) new] by blast
          then have "take (length old) s = old" using old yx Cons by simp
          then show False using False by simp
        qed
      qed
      then show ?thesis unfolding R using rest by simp
    qed
  qed
qed


lemma uuid_Nil_String_set: "set uuid_Nil_String = {CHR ''0'', CHR ''-''}"
  by (auto simp: uuid_Nil_String_def)

text \<open>
  The claim fails: the URL of the saved interaction still contains the subscription ID.
  The zeros that end the nil UUID and the text after the replaced occurrence spell it
  again.
\<close>

theorem saveFilter_keeps_subscriptionID:
  "Request_URL (Request (fst (saveFilter ''00000000-1111-2222-3333-444444444444'' example_interaction)))
     = ''/subscriptions/00000000-0000-0000-0000-000000000000-1111-2222-3333-444444444444''
   \<and> contains
        (Request_URL (Request (fst (saveFilter ''00000000-1111-2222-3333-444444444444''
           example_interaction))))
        ''00000000-1111-2222-3333-444444444444''"
  by code_simp

text \<open>
  A body can also come to contain the subscription ID through \<^verbatim>\<open>hideRecordingData\<close>, which
  runs after the replacement: here the replacement date completes the ID.
\<close>

lemma saveFilter_body_gains_subscriptionID:
  "\<not> contains (Request_Body (Request example_interaction_body))
        ''a2b4c6d8-1111-2222-3333-444444442001''
   \<and> contains
        (Request_Body (Request (fst (saveFilter ''a2b4c6d8-1111-2222-3333-444444442001''
           example_interaction_body))))
        ''a2b4c6d8-1111-2222-3333-444444442001''"
  by code_simp

text \<open>
  Claim C10, as amended. The save filter returns no error, removes the request header
  stored under \<^verbatim>\<open>Authorization\<close>, and applies \<^verbatim>\<open>strings.ReplaceAll\<close> from the subscription ID
  to the nil UUID once to the URL, to every header value and to the two bodies (before
  \<^verbatim>\<open>hideRecordingData\<close>). When the subscription ID is not empty, neither begins nor ends
  with \<^verbatim>\<open>0\<close> or \<^verbatim>\<open>-\<close> and does not contain the nil UUID, the saved URL and the saved
  header values do not contain it.
\<close>

theorem saveFilter_rewrites:
  "snd (saveFilter subscriptionID i) = None
   \<and> Request_Headers (Request (fst (saveFilter subscriptionID i))) ''Authorization'' = None
   \<and> Request_URL (Request (fst (saveFilter subscriptionID i))) =
        ReplaceAll (Request_URL (Request i)) subscriptionID uuid_Nil_String
   \<and> Request_Body (Request (fst (saveFilter subscriptionID i))) =
        hideRecordingData (ReplaceAll (Request_Body (Request i)) subscriptionID uuid_Nil_String)
   \<and> Response_Body (Response (fst (saveFilter subscriptionID i))) =
        hideRecordingData (ReplaceAll (Response_Body (Response i)) subscriptionID uuid_Nil_String)
   \<and> (\<forall>k vs. Request_Headers (Request (fst (saveFilter subscriptionID i))) k = Some vs \<longrightarrow>
          (\<exists>old. Request_Headers (Request i) k = Some old
                \<and> vs = map (\<lambda>v. ReplaceAll v subscriptionID uuid_Nil_String) old))
   \<and> (\<forall>k vs. Response_Headers (Response (fst (saveFilter subscriptionID i))) k = Some vs \<longrightarrow>
          (\<exists>old. Response_Headers (Response i) k = Some old
                \<and> vs = map (\<lambda>v. ReplaceAll v subscriptionID uuid_Nil_String) old))
   \<and> (subscriptionID \<noteq> [] \<and> hd subscriptionID \<notin> {CHR ''0'', CHR ''-''}
        \<and> last subscriptionID \<notin> {CHR ''0'', CHR ''-''}
        \<and> \<not> contains subscriptionID uuid_Nil_String \<longrightarrow>
          \<not> contains (Request_URL (Request (fst (saveFilter subscriptionID i)))) subscriptionID
          \<and> (\<forall>k vs v. Request_Headers (Request (fst (saveFilter subscriptionID i))) k = Some vs
                 \<and> v \<in> set vs \<longrightarrow> \<not> contains v subscriptionID)
          \<and> (\<forall>k vs v. Response_Headers (Response (fst (saveFilter subscriptionID i))) k = Some vs
                 \<and> v \<in> set vs \<longrightarrow> \<not> contains v subscriptionID))"
proof -
  have headers: "hideSubID_in_headers subscriptionID m k =
      map_option (map (\<lambda>v. ReplaceAll v subscriptionID uuid_Nil_String)) (m k)" for m k
    by (auto simp: hideSubID_in_headers_def hideSubID_def split: option.splits)
  have rw: "snd (saveFilter subscriptionID i) = None
   \<and> Request_Headers (Request (fst (saveFilter subscriptionID i))) ''Authorization'' = None
   \<and> Request_URL (Request (fst (saveFilter subscriptionID i))) =
        ReplaceAll (Request_URL (Request i)) subscriptionID uuid_Nil_String
   \<and> Request_Body (Request (fst (saveFilter subscriptionID i))) =
        hideRecordingData (ReplaceAll (Request_Body (Request i)) subscriptionID uuid_Nil_String)
   \<and> Response_Body (Response (fst (saveFilter subscriptionID i))) =
        hideRecordingData (ReplaceAll (Response_Body (Response i)) subscriptionID uuid_Nil_String)
   \<and> (\<forall>k vs. Request_Headers (Request (fst (saveFilter subscriptionID i))) k = Some vs \<longrightarrow>
          (\<exists>old. Request_Headers (Request i) k = Some old
                \<and> vs = map (\<lambda>v. ReplaceAll v subscriptionID uuid_Nil_String) old))
   \<and> (\<forall>k vs. Response_Headers (Response (fst (saveFilter subscriptionID i))) k = Some vs \<longrightarrow>
          (\<exists>old. Response_Headers (Response i) k = Some old
                \<and> vs = map (\<lambda>v. ReplaceAll v subscriptionID uuid_Nil_String) old))"
    unfolding saveFilter_def Let_def
    by (auto simp: hideSubID_def headers)
  have free: "\<not> contains (ReplaceAll s subscriptionID uuid_Nil_String) subscriptionID"
    if "subscriptionID \<noteq> []" "hd subscriptionID \<notin> {CHR ''0'', CHR ''-''}"
       "last subscriptionID \<notin> {CHR ''0'', CHR ''-''}"
       "\<not> contains subscriptionID uuid_Nil_String" for s
    using ReplaceAll_free[of subscriptionID uuid_Nil_String s] that
    by (simp add: uuid_Nil_String_set)
  show ?thesis
    using rw free by (intro conjI impI allI; fastforce)
qed

theorem saveFilter_rewrites_witness:
  "''a2b4c6d8-1111-2222-3333-44444444444f'' \<noteq> []
   \<and> hd ''a2b4c6d8-1111-2222-3333-44444444444f'' \<notin> {CHR ''0'', CHR ''-''}
   \<and> last ''a2b4c6d8-1111-2222-3333-44444444444f'' \<notin> {CHR ''0'', CHR ''-''}
   \<and> \<not> contains ''a2b4c6d8-1111-2222-3333-44444444444f'' uuid_Nil_String
   \<and> Request_Headers (Request example_interaction_usual) ''Authorization'' = Some [''Bearer abc'']
   \<and> Request_Headers (Request (fst (saveFilter ''a2b4c6d8-1111-2222-3333-44444444444f''
         example_interaction_usual))) ''Authorization'' = None
   \<and> Request_Headers (Request (fst (saveFilter ''a2b4c6d8-1111-2222-3333-44444444444f''
         example_interaction_usual))) ''X-Sub'' = Some [''00000000-0000-0000-0000-000000000000'']
   \<and> \<not> contains (Request_URL (Request (fst (saveFilter ''a2b4c6d8-1111-2222-3333-44444444444f''
         example_interaction_usual)))) ''a2b4c6d8-1111-2222-3333-44444444444f''"
proof -
  have hyp: "''a2b4c6d8-1111-2222-3333-44444444444f'' \<noteq> []
      \<and> hd ''a2b4c6d8-1111-2222-3333-44444444444f'' \<notin> {CHR ''0'', CHR ''-''}
      \<and> last ''a2b4c6d8-1111-2222-3333-44444444444f'' \<notin> {CHR ''0'', CHR ''-''}
      \<and> \<not> contains ''a2b4c6d8-1111-2222-3333-44444444444f'' uuid_Nil_String"
    by code_simp
  have before: "Request_Headers (Request example_interaction_usual) ''Authorization''
      = Some [''Bearer abc'']"
    by (simp add: example_interaction_usual_def)
  have other: "Request_Headers (Request (fst (saveFilter ''a2b4c6d8-1111-2222-3333-44444444444f''
         example_interaction_usual))) ''X-Sub'' = Some [''00000000-0000-0000-0000-000000000000'']"
    by code_simp
  note inst = saveFilter_rewrites[of "''a2b4c6d8-1111-2222-3333-44444444444f''"
      example_interaction_usual]
  have gone: "Request_Headers (Request (fst (saveFilter ''a2b4c6d8-1111-2222-3333-44444444444f''
         example_interaction_usual))) ''Authorization'' = None"
    using inst by (elim conjE)
  have free: "\<not> contains (Request_URL (Request (fst (saveFilter ''a2b4c6d8-1111-2222-3333-44444444444f''
         example_interaction_usual)))) ''a2b4c6d8-1111-2222-3333-44444444444f''"
    using inst hyp by (elim conjE) (erule (1) impE[OF _ conjI, THEN conjunct1] | blast)+
  show ?thesis
    using hyp before gone other free by (intro conjI) (elim conjE, assumption)+
qed

end
